theory Spec2Isabelle
  imports Main "HOL-Library.Word"
begin

section \<open>Data model of pixel.cpp\<close>

type_synonym u8 = "8 word"

text \<open>
  Modelled from the spec: \<open>PIXEL_COUNT\<close> is a macro of hardware.h, which is not among the
  sources. The spec fixes it at 6, and \<open>activateAnode\<close> has the six cases 0..5.
\<close>

definition PIXEL_COUNT :: nat where
  "PIXEL_COUNT = 6"

definition RAW_PIXEL_SET_BUFFER_COUNT :: nat where
  "RAW_PIXEL_SET_BUFFER_COUNT = 2"

text \<open>\<open>rawpixel_t\<close>: the raw compare register values of one pixel.\<close>

record rawpixel_t =
  rawValueR :: u8
  rawValueG :: u8
  rawValueB :: u8

text \<open>\<open>rawpixelset_t\<close>: a struct around the array \<open>rawpixels[PIXEL_COUNT]\<close>.\<close>

record rawpixelset_t =
  rawpixels :: "rawpixel_t list"

text \<open>
  Modelled from the spec: \<open>pixelColor_t\<close> is declared in pixel.h, which is not among the
  sources. The spec gives it three channels \<open>r\<close>, \<open>g\<close>, \<open>b\<close>, each meant to be in 0..31.
  The channels are bytes here, and a table lookup checks the index.
\<close>

record pixelColor_t =
  r :: u8
  g :: u8
  b :: u8

text \<open>
  The file-scope variables of pixel.cpp and the hardware registers the interrupt handler
  writes. The two pointers \<open>displayedRawPixelSet\<close> and \<open>bufferedRawPixelSet\<close> are indices
  into \<open>rawpixelsetbuffer\<close>, so that the two sets are one shared store and a write through
  one pointer is seen through the other when they alias.

  \<open>PIXEL_PORT\<close> holds the six anode port bits \<open>PIXEL0_BIT\<close> .. \<open>PIXEL5_BIT\<close>;
  \<open>TCCR2A_COM2B1\<close> is the only bit of \<open>TCCR2A\<close> that the handler changes;
  \<open>LED_B_DDR\<close> and \<open>BLUE_SINK_DDR\<close> are the direction bits of the blue pin and the sink.
  \<open>swapChecks\<close> is a ghost counter: it counts how often the handler evaluates the test
  \<open>if (pendingRawPixelBufferSwap)\<close>.

  What decides whether the overflow interrupt of Timer0 is delivered: \<open>TCCR0B_CS01\<close>, the
  clock select bit that \<open>pixelTimersOn\<close> sets and \<open>pixelTimerOff\<close> clears (the timer
  counts only with a clock selected); \<open>GTCCR_TSM\<close>, the synchronisation mode bit that
  halts the timers while set; \<open>TIMSK0_TOIE0\<close>, the overflow interrupt enable bit that
  \<open>setupTimers\<close> sets; and \<open>SREG_I\<close>, the global interrupt enable flag of the
  processor. \<open>TCCR2B_CS21\<close> and \<open>TIMSK2_OCIE2A\<close> are the same bits of Timer2.
\<close>

record pixel_state =
  rawpixelsetbuffer :: "rawpixelset_t list"
  displayedRawPixelSet :: nat
  bufferedRawPixelSet :: nat
  currentPixelIndex :: u8
  phase :: u8
  pendingRawPixelBufferSwap :: u8
  PIXEL_PORT :: "bool list"
  OCR0A :: u8
  OCR0B :: u8
  OCR2B :: u8
  TCCR2A_COM2B1 :: bool
  LED_B_DDR :: bool
  BLUE_SINK_DDR :: bool
  TCCR0B_CS01 :: bool
  TCCR2B_CS21 :: bool
  GTCCR_TSM :: bool
  TIMSK0_TOIE0 :: bool
  TIMSK2_OCIE2A :: bool
  SREG_I :: bool
  swapChecks :: nat

text \<open>
  The state at program start: the static initialisers of pixel.cpp (zeroed arrays,
  \<open>displayedRawPixelSet = &rawpixelsetbuffer[0]\<close>, \<open>bufferedRawPixelSet = &rawpixelsetbuffer[1]\<close>,
  \<open>phase = 0\<close>, the other statics zero) and the hardware registers at their reset
  value zero: no timer has a clock, no interrupt is enabled.
\<close>

definition boot_state :: pixel_state where
  "boot_state =
     \<lparr> rawpixelsetbuffer =
         replicate RAW_PIXEL_SET_BUFFER_COUNT
           \<lparr> rawpixels = replicate PIXEL_COUNT \<lparr> rawValueR = 0, rawValueG = 0, rawValueB = 0 \<rparr> \<rparr>,
       displayedRawPixelSet = 0,
       bufferedRawPixelSet = 1,
       currentPixelIndex = 0,
       phase = 0,
       pendingRawPixelBufferSwap = 0,
       PIXEL_PORT = replicate 6 False,
       OCR0A = 0,
       OCR0B = 0,
       OCR2B = 0,
       TCCR2A_COM2B1 = False,
       LED_B_DDR = False,
       BLUE_SINK_DDR = False,
       TCCR0B_CS01 = False,
       TCCR2B_CS21 = False,
       GTCCR_TSM = False,
       TIMSK0_TOIE0 = False,
       TIMSK2_OCIE2A = False,
       SREG_I = False,
       swapChecks = 0 \<rparr>"

section \<open>pixel_init\<close>

text \<open>
  The inner loop \<open>for (j = 0; j < PIXEL_COUNT; j++)\<close> of \<open>pixel_init\<close>, from counter \<open>j\<close>.
  The counters are \<open>uint8_t\<close> in the source and stay below 7, so they are naturals here.
\<close>

function init_rawpixels :: "nat \<Rightarrow> rawpixelset_t \<Rightarrow> rawpixelset_t" where
  "init_rawpixels j rawpixelset =
     (if j < PIXEL_COUNT
      then init_rawpixels (j + 1)
             (rawpixelset\<lparr> rawpixels :=
                (rawpixels rawpixelset)
                  [j := (rawpixels rawpixelset ! j)
                          \<lparr> rawValueR := 255, rawValueG := 255, rawValueB := 255 \<rparr>] \<rparr>)
      else rawpixelset)"
  by pat_completeness auto
termination
  by (relation "measure (\<lambda>(j, rawpixelset). PIXEL_COUNT - j)") auto

declare init_rawpixels.simps [simp del]

text \<open>The outer loop \<open>for (i = 0; i < RAW_PIXEL_SET_BUFFER_COUNT; i++)\<close>, from counter \<open>i\<close>.\<close>

function init_rawpixelsets :: "nat \<Rightarrow> rawpixelset_t list \<Rightarrow> rawpixelset_t list" where
  "init_rawpixelsets i buffers =
     (if i < RAW_PIXEL_SET_BUFFER_COUNT
      then init_rawpixelsets (i + 1) (buffers[i := init_rawpixels 0 (buffers ! i)])
      else buffers)"
  by pat_completeness auto
termination
  by (relation "measure (\<lambda>(i, buffers). RAW_PIXEL_SET_BUFFER_COUNT - i)") auto

declare init_rawpixelsets.simps [simp del]

text \<open>
  \<open>setupTimers\<close>: \<open>TIMSK0 = _BV(TOIE0)\<close> and \<open>TIMSK2 = _BV(OCIE2A)\<close>. It enables the two
  interrupts in their mask registers; it does not start a timer.
\<close>

definition setupTimers :: "pixel_state \<Rightarrow> pixel_state" where
  "setupTimers s = s\<lparr> TIMSK0_TOIE0 := True, TIMSK2_OCIE2A := True \<rparr>"

text \<open>
  \<open>pixel_init\<close>: the buffer initialisation, then \<open>setupPixelPins\<close> and \<open>setupTimers\<close>.
  \<open>setupPixelPins\<close> writes the direction bits of the anode pins and the red and green
  cathode pins only, which are not part of \<open>pixel_state\<close>.
\<close>

definition pixel_init :: "pixel_state \<Rightarrow> pixel_state" where
  "pixel_init s =
     setupTimers (s\<lparr> rawpixelsetbuffer := init_rawpixelsets 0 (rawpixelsetbuffer s) \<rparr>)"

section \<open>The interrupt handler\<close>

text \<open>\<open>activateAnode\<close>: a switch over the lines 0..5; any other line matches no case.\<close>

definition activateAnode :: "u8 \<Rightarrow> pixel_state \<Rightarrow> pixel_state" where
  "activateAnode line s =
     (if line = 0 then s\<lparr> PIXEL_PORT := (PIXEL_PORT s)[0 := True] \<rparr>
      else if line = 1 then s\<lparr> PIXEL_PORT := (PIXEL_PORT s)[1 := True] \<rparr>
      else if line = 2 then s\<lparr> PIXEL_PORT := (PIXEL_PORT s)[2 := True] \<rparr>
      else if line = 3 then s\<lparr> PIXEL_PORT := (PIXEL_PORT s)[3 := True] \<rparr>
      else if line = 4 then s\<lparr> PIXEL_PORT := (PIXEL_PORT s)[4 := True] \<rparr>
      else if line = 5 then s\<lparr> PIXEL_PORT := (PIXEL_PORT s)[5 := True] \<rparr>
      else s)"

text \<open>\<open>deactivateAnodes\<close>: clears all six anode bits.\<close>

definition deactivateAnodes :: "pixel_state \<Rightarrow> pixel_state" where
  "deactivateAnodes s = s\<lparr> PIXEL_PORT := replicate 6 False \<rparr>"

text \<open>
  \<open>pixel_isr\<close>, one call per timer overflow. The handler first takes the address of
  \<open>displayedRawPixelSet->rawpixels[currentPixelIndex]\<close> and reads through it in the
  phases 0 to 3. With an index outside the array that access is outside the C object;
  the model returns \<open>None\<close> for such a state. Otherwise the switch over \<open>phase\<close>
  runs; a phase above 4 matches no case and leaves the state as it is.
\<close>

definition pixel_isr :: "pixel_state \<Rightarrow> pixel_state option" where
  "pixel_isr s =
     (if PIXEL_COUNT \<le> unat (currentPixelIndex s) then None
      else
        let currentPixel =
              rawpixels (rawpixelsetbuffer s ! displayedRawPixelSet s) ! unat (currentPixelIndex s)
        in Some
         (if phase s = 0 then
            (let s1 = deactivateAnodes s;
                 s2 = (if rawValueB currentPixel \<noteq> 255
                       then s1\<lparr> TCCR2A_COM2B1 := True, LED_B_DDR := True, BLUE_SINK_DDR := True \<rparr>
                       else s1)
             in s2\<lparr> phase := phase s2 + 1 \<rparr>)
          else if phase s = 1 then
            (let s1 = s\<lparr> BLUE_SINK_DDR := False \<rparr>;
                 s2 = activateAnode (currentPixelIndex s1) s1;
                 s3 = s2\<lparr> OCR2B := rawValueB currentPixel \<rparr>
             in s3\<lparr> phase := phase s3 + 1 \<rparr>)
          else if phase s = 2 then
            (let s1 = s\<lparr> OCR2B := 255, OCR0A := rawValueR currentPixel \<rparr>
             in s1\<lparr> phase := phase s1 + 1 \<rparr>)
          else if phase s = 3 then
            (let s1 = s\<lparr> LED_B_DDR := False, TCCR2A_COM2B1 := False,
                         OCR0A := 255, OCR0B := rawValueG currentPixel \<rparr>
             in s1\<lparr> phase := phase s1 + 1 \<rparr>)
          else if phase s = 4 then
            (let s1 = s\<lparr> OCR0B := 255, phase := 0 \<rparr>;
                 s2 = s1\<lparr> currentPixelIndex := currentPixelIndex s1 + 1 \<rparr>
             in if unat (currentPixelIndex s2) = PIXEL_COUNT then
                  (let s3 = s2\<lparr> currentPixelIndex := 0, swapChecks := swapChecks s2 + 1 \<rparr>
                   in if pendingRawPixelBufferSwap s3 \<noteq> 0 then
                        s3\<lparr> displayedRawPixelSet := bufferedRawPixelSet s3,
                            bufferedRawPixelSet := displayedRawPixelSet s3,
                            pendingRawPixelBufferSwap := 0 \<rparr>
                      else s3)
                else s2)
          else s))"

text \<open>\<open>n\<close> consecutive timer overflows.\<close>

fun isr_steps :: "nat \<Rightarrow> pixel_state \<Rightarrow> pixel_state option" where
  "isr_steps 0 s = Some s"
| "isr_steps (Suc n) s = (case pixel_isr s of None \<Rightarrow> None | Some s' \<Rightarrow> isr_steps n s')"

section \<open>Starting and stopping the timers\<close>

text \<open>\<open>holdTimers\<close> and \<open>releaseTimers\<close>: set and clear the synchronisation mode bit.\<close>

definition holdTimers :: "pixel_state \<Rightarrow> pixel_state" where
  "holdTimers s = s\<lparr> GTCCR_TSM := True \<rparr>"

definition releaseTimers :: "pixel_state \<Rightarrow> pixel_state" where
  "releaseTimers s = s\<lparr> GTCCR_TSM := False \<rparr>"

text \<open>
  \<open>pixelTimersOn\<close>, in the order of the source: compare registers of red and green off,
  blue timer output connected (\<open>TCCR2A\<close> with \<open>COM2B1\<close>), blue compare register off, timers
  held, clock selected for Timer0 and Timer2, timers released. The counters, the forced
  compares, \<open>TCCR0A\<close> and \<open>OCR2A\<close> are not part of \<open>pixel_state\<close>.
\<close>

definition pixelTimersOn :: "pixel_state \<Rightarrow> pixel_state" where
  "pixelTimersOn s =
     (let s1 = s\<lparr> OCR0A := 255, OCR0B := 255 \<rparr>;
          s2 = s1\<lparr> TCCR2A_COM2B1 := True \<rparr>;
          s3 = s2\<lparr> OCR2B := 255 \<rparr>;
          s4 = holdTimers s3;
          s5 = s4\<lparr> TCCR0B_CS01 := True \<rparr>;
          s6 = s5\<lparr> TCCR2B_CS21 := True \<rparr>
      in releaseTimers s6)"

text \<open>
  \<open>pixelTimerOff\<close>: \<open>TCCR0B = 0\<close> stops Timer0, all anodes are deactivated,
  \<open>TCCR2B = 0\<close> stops Timer2, \<open>TCCR2A = 0\<close> disconnects the blue timer output, and the
  blue sink becomes an input.
\<close>

definition pixelTimerOff :: "pixel_state \<Rightarrow> pixel_state" where
  "pixelTimerOff s =
     (let s1 = s\<lparr> TCCR0B_CS01 := False \<rparr>;
          s2 = deactivateAnodes s1;
          s3 = s2\<lparr> TCCR2B_CS21 := False \<rparr>;
          s4 = s3\<lparr> TCCR2A_COM2B1 := False \<rparr>
      in s4\<lparr> BLUE_SINK_DDR := False \<rparr>)"

definition pixel_disable :: "pixel_state \<Rightarrow> pixel_state" where
  "pixel_disable s = pixelTimerOff s"

definition pixel_enable :: "pixel_state \<Rightarrow> pixel_state" where
  "pixel_enable s = pixelTimersOn s"

text \<open>
  \<open>sei()\<close> sets the global interrupt enable flag. In pixel.cpp only the two interrupt
  vectors call it; the first \<open>sei()\<close> of the program is the caller's.
\<close>

definition sei :: "pixel_state \<Rightarrow> pixel_state" where
  "sei s = s\<lparr> SREG_I := True \<rparr>"

text \<open>
  The overflow interrupt of Timer0 is delivered when the timer has a clock and is not
  held, its overflow interrupt is enabled, and interrupts are enabled globally.
\<close>

definition timer0_overflow_delivered :: "pixel_state \<Rightarrow> bool" where
  "timer0_overflow_delivered s \<longleftrightarrow>
     TCCR0B_CS01 s \<and> \<not> GTCCR_TSM s \<and> TIMSK0_TOIE0 s \<and> SREG_I s"

text \<open>
  \<open>ISR(TIMER0_OVF_vect)\<close>: \<open>sei()\<close>, then \<open>pixel_isr()\<close>. The three callbacks it also
  calls belong to other modules and do not write \<open>pixel_state\<close>; the return from the
  interrupt leaves the global flag set.
\<close>

definition TIMER0_OVF_vect :: "pixel_state \<Rightarrow> pixel_state option" where
  "TIMER0_OVF_vect s = pixel_isr (sei s)"

section \<open>Foreground operations\<close>

text \<open>
  The assignments through \<open>rawpixel = &(bufferedRawPixelSet->rawpixels[pixel])\<close>: the slot
  \<open>pixel\<close> of the set that pointer \<open>p\<close> addresses is replaced by \<open>f\<close> of itself.
\<close>

definition write_rawpixel ::
  "nat \<Rightarrow> nat \<Rightarrow> (rawpixel_t \<Rightarrow> rawpixel_t) \<Rightarrow> pixel_state \<Rightarrow> pixel_state" where
  "write_rawpixel p pixel f s =
     s\<lparr> rawpixelsetbuffer :=
          (rawpixelsetbuffer s)
            [p := (rawpixelsetbuffer s ! p)
                    \<lparr> rawpixels :=
                        (rawpixels (rawpixelsetbuffer s ! p))
                          [pixel := f (rawpixels (rawpixelsetbuffer s ! p) ! pixel)] \<rparr>] \<rparr>"

text \<open>
  \<open>pixel_bufferedSetPixelRaw\<close>. The source does not check \<open>pixel\<close>; an index outside
  \<open>rawpixels\<close> writes outside the array, which is undefined behaviour: \<open>None\<close>.
\<close>

definition pixel_bufferedSetPixelRaw ::
  "u8 \<Rightarrow> u8 \<Rightarrow> u8 \<Rightarrow> u8 \<Rightarrow> pixel_state \<Rightarrow> pixel_state option" where
  "pixel_bufferedSetPixelRaw pixel r_pwm g_pwm b_pwm s =
     (if PIXEL_COUNT \<le> unat pixel then None
      else Some (write_rawpixel (bufferedRawPixelSet s) (unat pixel)
                   (\<lambda>rawpixel. rawpixel\<lparr> rawValueR := r_pwm, rawValueG := g_pwm,
                                          rawValueB := b_pwm \<rparr>) s))"

text \<open>The gamma tables, 32 entries each.\<close>

definition gamma8R :: "u8 list" where
  "gamma8R =
     [255,254,253,251,250,248,245,242,238,234,230,224,218,211,204,195,
      186,176,165,153,140,126,111,95,78,59,40,19,13,9,3,1]"

definition gamma8G :: "u8 list" where
  "gamma8G =
     [255,254,253,251,250,248,245,242,238,234,230,224,218,211,204,195,
      186,176,165,153,140,126,111,95,78,59,40,19,13,9,3,1]"

definition gamma8B :: "u8 list" where
  "gamma8B =
     [255,254,253,251,250,248,245,242,238,234,230,224,218,211,204,195,
      186,176,165,153,140,126,111,95,78,59,40,19,13,9,3,1]"

text \<open>
  \<open>pgm_read_byte(&table[i])\<close>: the entry \<open>i\<close> of a table in program memory; an index
  past the table reads outside it, which is undefined behaviour: \<open>None\<close>.
\<close>

definition pgm_read_byte :: "u8 list \<Rightarrow> u8 \<Rightarrow> u8 option" where
  "pgm_read_byte table i = (if unat i < length table then Some (table ! unat i) else None)"

text \<open>\<open>pixel_bufferedSetPixel\<close>: the three channels through their gamma tables.\<close>

definition pixel_bufferedSetPixel :: "u8 \<Rightarrow> pixelColor_t \<Rightarrow> pixel_state \<Rightarrow> pixel_state option" where
  "pixel_bufferedSetPixel pixel newColor s =
     (if PIXEL_COUNT \<le> unat pixel then None
      else
        (case pgm_read_byte gamma8R (r newColor) of None \<Rightarrow> None | Some vr \<Rightarrow>
        (case pgm_read_byte gamma8G (g newColor) of None \<Rightarrow> None | Some vg \<Rightarrow>
        (case pgm_read_byte gamma8B (b newColor) of None \<Rightarrow> None | Some vb \<Rightarrow>
           Some (write_rawpixel (bufferedRawPixelSet s) (unat pixel)
                   (\<lambda>rawpixel. rawpixel\<lparr> rawValueR := vr, rawValueG := vg,
                                          rawValueB := vb \<rparr>) s)))))"

text \<open>
  The busy wait \<open>while (pendingRawPixelBufferSwap);\<close>. The loop body is empty: the
  foreground only reads the flag again. Between two reads the state changes only when
  the overflow interrupt of Timer0 is delivered and \<open>TIMER0_OVF_vect\<close> runs. So one turn of
  the loop is: with the flag set, either the interrupt is delivered and the wait goes on
  from the state the vector leaves, or it is not and the wait goes on from the same
  state. A wait that never ends is \<open>None\<close>.
\<close>

partial_function (option) wait_pendingRawPixelBufferSwap ::
  "pixel_state \<Rightarrow> pixel_state option" where
  "wait_pendingRawPixelBufferSwap s =
     (if pendingRawPixelBufferSwap s \<noteq> 0
      then (if timer0_overflow_delivered s
            then (case TIMER0_OVF_vect s of
                    None \<Rightarrow> None
                  | Some s' \<Rightarrow> wait_pendingRawPixelBufferSwap s')
            else wait_pendingRawPixelBufferSwap s)
      else Some s)"

text \<open>\<open>memcpy(bufferedRawPixelSet, displayedRawPixelSet, sizeof(rawpixelset_t))\<close>.\<close>

definition memcpy_buffered_from_displayed :: "pixel_state \<Rightarrow> pixel_state" where
  "memcpy_buffered_from_displayed s =
     s\<lparr> rawpixelsetbuffer :=
          (rawpixelsetbuffer s)
            [bufferedRawPixelSet s := rawpixelsetbuffer s ! displayedRawPixelSet s] \<rparr>"

text \<open>\<open>pixel_displayBufferedPixels\<close>: raise the flag, wait for the handler, copy.\<close>

definition pixel_displayBufferedPixels :: "pixel_state \<Rightarrow> pixel_state option" where
  "pixel_displayBufferedPixels s =
     (case wait_pendingRawPixelBufferSwap (s\<lparr> pendingRawPixelBufferSwap := 1 \<rparr>) of
        None \<Rightarrow> None
      | Some s' \<Rightarrow> Some (memcpy_buffered_from_displayed s'))"

section \<open>Views and invariants\<close>

text \<open>The set each pointer addresses, and a slot of it.\<close>

definition displayed_set :: "pixel_state \<Rightarrow> rawpixel_t list" where
  "displayed_set s = rawpixels (rawpixelsetbuffer s ! displayedRawPixelSet s)"

definition buffered_set :: "pixel_state \<Rightarrow> rawpixel_t list" where
  "buffered_set s = rawpixels (rawpixelsetbuffer s ! bufferedRawPixelSet s)"

text \<open>The all-off raw pixel.\<close>

definition raw_off :: rawpixel_t where
  "raw_off = \<lparr> rawValueR = 255, rawValueG = 255, rawValueB = 255 \<rparr>"

text \<open>
  What the C declarations guarantee of the store: \<open>rawpixelsetbuffer\<close> has
  \<open>RAW_PIXEL_SET_BUFFER_COUNT\<close> sets of \<open>PIXEL_COUNT\<close> pixels each.
\<close>

definition store_allocated :: "pixel_state \<Rightarrow> bool" where
  "store_allocated s \<longleftrightarrow>
     length (rawpixelsetbuffer s) = RAW_PIXEL_SET_BUFFER_COUNT \<and>
     list_all (\<lambda>rawpixelset. length (rawpixels rawpixelset) = PIXEL_COUNT) (rawpixelsetbuffer s)"

text \<open>The two pointers address the two different sets of the store.\<close>

definition wf_store :: "pixel_state \<Rightarrow> bool" where
  "wf_store s \<longleftrightarrow>
     store_allocated s \<and>
     displayedRawPixelSet s < RAW_PIXEL_SET_BUFFER_COUNT \<and>
     bufferedRawPixelSet s < RAW_PIXEL_SET_BUFFER_COUNT \<and>
     displayedRawPixelSet s \<noteq> bufferedRawPixelSet s"

text \<open>The cursor invariant: the pixel index is in [0,6) and the phase in {0,..,4}.\<close>

definition wf_cursor :: "pixel_state \<Rightarrow> bool" where
  "wf_cursor s \<longleftrightarrow> unat (currentPixelIndex s) < PIXEL_COUNT \<and> unat (phase s) < 5"

definition wf_state :: "pixel_state \<Rightarrow> bool" where
  "wf_state s \<longleftrightarrow> wf_store s \<and> wf_cursor s"

text \<open>The position of the cursor in the frame, 0..29.\<close>

definition frame_pos :: "pixel_state \<Rightarrow> nat" where
  "frame_pos s = unat (currentPixelIndex s) * 5 + unat (phase s)"

text \<open>
  The state after \<open>pixel_init()\<close>, \<open>pixel_enable()\<close> and the caller's \<open>sei()\<close>: the store
  all off and the overflow interrupt delivered.
\<close>

definition running_state :: pixel_state where
  "running_state = sei (pixel_enable (pixel_init boot_state))"

text \<open>
  The running state with (10, 20, 30) written to slot 1 of the buffered set, and nothing
  displayed yet: the two sets differ.
\<close>

definition painted_state :: pixel_state where
  "painted_state =
     write_rawpixel (bufferedRawPixelSet running_state) 1
       (\<lambda>rawpixel. rawpixel\<lparr> rawValueR := 10, rawValueG := 20, rawValueB := 30 \<rparr>)
       running_state"

text \<open>A state in the middle of a scan: pixel 2, phase 3, after \<open>pixel_init\<close>.\<close>

definition mid_scan_state :: pixel_state where
  "mid_scan_state = (pixel_init boot_state)\<lparr> currentPixelIndex := 2, phase := 3 \<rparr>"

section \<open>Auxiliary facts\<close>

lemma u8_less_5: "unat (w :: u8) < 5 \<Longrightarrow> w = 0 \<or> w = 1 \<or> w = 2 \<or> w = 3 \<or> w = 4"
  unfolding word_unat_eq_iff by simp arith

lemma u8_less_6:
  "unat (w :: u8) < 6 \<Longrightarrow> w = 0 \<or> w = 1 \<or> w = 2 \<or> w = 3 \<or> w = 4 \<or> w = 5"
  unfolding word_unat_eq_iff by simp arith

lemma length_6_conv: "length xs = 6 \<longleftrightarrow> (\<exists>x0 x1 x2 x3 x4 x5. xs = [x0, x1, x2, x3, x4, x5])"
  by (auto simp: eval_nat_numeral length_Suc_conv)

lemma length_2_conv: "length xs = 2 \<longleftrightarrow> (\<exists>x0 x1. xs = [x0, x1])"
  by (auto simp: eval_nat_numeral length_Suc_conv)

lemma nth_mono_decreasing:
  assumes "sorted_wrt (\<lambda>x y. y \<le> x) (table :: u8 list)" and "i \<le> j" and "j < length table"
  shows "table ! j \<le> table ! i"
proof (cases "i = j")
  case True
  then show ?thesis by simp
next
  case False
  with assms(2) have "i < j" by simp
  from sorted_wrt_nth_less [OF assms(1) this assms(3)] show ?thesis .
qed

subsection \<open>The store after \<open>pixel_init\<close>\<close>

lemma init_rawpixels_all_off:
  assumes "length (rawpixels ps) = PIXEL_COUNT"
  shows "init_rawpixels 0 ps = ps\<lparr> rawpixels := replicate PIXEL_COUNT raw_off \<rparr>"
proof -
  from assms obtain x0 x1 x2 x3 x4 x5 where "rawpixels ps = [x0, x1, x2, x3, x4, x5]"
    by (auto simp: PIXEL_COUNT_def length_6_conv)
  then show ?thesis
    by (simp add: init_rawpixels.simps PIXEL_COUNT_def raw_off_def eval_nat_numeral)
qed

lemma init_rawpixelsets_all_off:
  assumes "length bufs = RAW_PIXEL_SET_BUFFER_COUNT"
    and "list_all (\<lambda>rawpixelset. length (rawpixels rawpixelset) = PIXEL_COUNT) bufs"
  shows "init_rawpixelsets 0 bufs =
           map (\<lambda>ps. ps\<lparr> rawpixels := replicate PIXEL_COUNT raw_off \<rparr>) bufs"
proof -
  from assms(1) obtain x0 x1 where "bufs = [x0, x1]"
    by (auto simp: RAW_PIXEL_SET_BUFFER_COUNT_def length_2_conv)
  with assms(2) show ?thesis
    by (simp add: init_rawpixelsets.simps RAW_PIXEL_SET_BUFFER_COUNT_def init_rawpixels_all_off)
qed

subsection \<open>One step of the handler\<close>

lemmas isr_defs = pixel_isr_def Let_def activateAnode_def deactivateAnodes_def PIXEL_COUNT_def

lemma wf_cursor_cases:
  assumes "wf_cursor s"
  shows "phase s = 0 \<or> phase s = 1 \<or> phase s = 2 \<or> phase s = 3 \<or> phase s = 4"
    and "currentPixelIndex s = 0 \<or> currentPixelIndex s = 1 \<or> currentPixelIndex s = 2 \<or>
         currentPixelIndex s = 3 \<or> currentPixelIndex s = 4 \<or> currentPixelIndex s = 5"
  using assms by (simp_all add: wf_cursor_def PIXEL_COUNT_def u8_less_5 u8_less_6)

lemma frame_pos_bound: "wf_cursor s \<Longrightarrow> frame_pos s \<le> 29"
  by (simp add: wf_cursor_def frame_pos_def PIXEL_COUNT_def)

lemma frame_pos_last:
  assumes "wf_cursor s"
  shows "frame_pos s = 29 \<longleftrightarrow> phase s = 4 \<and> currentPixelIndex s = 5"
  using wf_cursor_cases [OF assms] by (elim disjE) (simp_all add: frame_pos_def)

lemma frame_pos_first:
  assumes "wf_cursor s"
  shows "frame_pos s = 0 \<longleftrightarrow> phase s = 0 \<and> currentPixelIndex s = 0"
  using wf_cursor_cases [OF assms] by (elim disjE) (simp_all add: frame_pos_def)

text \<open>Away from the last phase of the last pixel, a step moves the cursor and nothing else
  of the frame store.\<close>

lemma pixel_isr_mid:
  assumes "wf_cursor s" and "frame_pos s \<noteq> 29"
  shows "\<exists>s'. pixel_isr s = Some s' \<and>
           rawpixelsetbuffer s' = rawpixelsetbuffer s \<and>
           displayedRawPixelSet s' = displayedRawPixelSet s \<and>
           bufferedRawPixelSet s' = bufferedRawPixelSet s \<and>
           pendingRawPixelBufferSwap s' = pendingRawPixelBufferSwap s \<and>
           swapChecks s' = swapChecks s \<and>
           frame_pos s' = frame_pos s + 1 \<and> wf_cursor s'"
  using wf_cursor_cases [OF assms(1)] assms(2)
  by (elim disjE) (simp_all add: isr_defs frame_pos_def wf_cursor_def)

text \<open>The step at the last phase of the last pixel.\<close>

lemma pixel_isr_wrap:
  assumes "wf_cursor s" and "frame_pos s = 29"
  shows "pixel_isr s = Some
           (if pendingRawPixelBufferSwap s \<noteq> 0
            then s\<lparr> OCR0B := 255, phase := 0, currentPixelIndex := 0,
                    swapChecks := swapChecks s + 1,
                    displayedRawPixelSet := bufferedRawPixelSet s,
                    bufferedRawPixelSet := displayedRawPixelSet s,
                    pendingRawPixelBufferSwap := 0 \<rparr>
            else s\<lparr> OCR0B := 255, phase := 0, currentPixelIndex := 0,
                    swapChecks := swapChecks s + 1 \<rparr>)"
  using wf_cursor_cases [OF assms(1)] assms(2)
  by (elim disjE) (simp_all add: isr_defs frame_pos_def wf_cursor_def)

subsection \<open>Several steps\<close>

lemma isr_steps_add:
  "isr_steps (m + n) s = (case isr_steps m s of None \<Rightarrow> None | Some t \<Rightarrow> isr_steps n t)"
  by (induction m arbitrary: s) (simp_all split: option.splits)

lemma isr_steps_mid:
  "wf_cursor s \<Longrightarrow> frame_pos s + n \<le> 29 \<Longrightarrow>
   \<exists>s'. isr_steps n s = Some s' \<and>
        rawpixelsetbuffer s' = rawpixelsetbuffer s \<and>
        displayedRawPixelSet s' = displayedRawPixelSet s \<and>
        bufferedRawPixelSet s' = bufferedRawPixelSet s \<and>
        pendingRawPixelBufferSwap s' = pendingRawPixelBufferSwap s \<and>
        swapChecks s' = swapChecks s \<and>
        frame_pos s' = frame_pos s + n \<and> wf_cursor s'"
proof (induction n arbitrary: s)
  case 0
  then show ?case by simp
next
  case (Suc n)
  from Suc.prems have "frame_pos s \<noteq> 29" by simp
  from pixel_isr_mid [OF Suc.prems(1) this] obtain s1 where
    s1: "pixel_isr s = Some s1" "rawpixelsetbuffer s1 = rawpixelsetbuffer s"
      "displayedRawPixelSet s1 = displayedRawPixelSet s"
      "bufferedRawPixelSet s1 = bufferedRawPixelSet s"
      "pendingRawPixelBufferSwap s1 = pendingRawPixelBufferSwap s"
      "swapChecks s1 = swapChecks s"
      "frame_pos s1 = frame_pos s + 1" "wf_cursor s1"
    by blast
  from s1(7) Suc.prems(2) have "frame_pos s1 + n \<le> 29" by simp
  from Suc.IH [OF s1(8) this] obtain s' where
    "isr_steps n s1 = Some s'" "rawpixelsetbuffer s' = rawpixelsetbuffer s1"
      "displayedRawPixelSet s' = displayedRawPixelSet s1"
      "bufferedRawPixelSet s' = bufferedRawPixelSet s1"
      "pendingRawPixelBufferSwap s' = pendingRawPixelBufferSwap s1"
      "swapChecks s' = swapChecks s1"
      "frame_pos s' = frame_pos s1 + n" "wf_cursor s'"
    by blast
  with s1 show ?case by simp
qed

text \<open>The steps up to and including the one at the frame boundary.\<close>

lemma isr_steps_to_boundary:
  assumes "wf_cursor s"
  shows "\<exists>s1. isr_steps (29 - frame_pos s) s = Some s1 \<and> wf_cursor s1 \<and> frame_pos s1 = 29 \<and>
           rawpixelsetbuffer s1 = rawpixelsetbuffer s \<and>
           displayedRawPixelSet s1 = displayedRawPixelSet s \<and>
           bufferedRawPixelSet s1 = bufferedRawPixelSet s \<and>
           pendingRawPixelBufferSwap s1 = pendingRawPixelBufferSwap s \<and>
           swapChecks s1 = swapChecks s \<and>
           isr_steps (30 - frame_pos s) s = pixel_isr s1"
proof -
  define n where "n = 29 - frame_pos s"
  from frame_pos_bound [OF assms] have n: "frame_pos s + n = 29" "30 - frame_pos s = n + 1"
    by (simp_all add: n_def)
  from n have "frame_pos s + n \<le> 29" by simp
  from isr_steps_mid [OF assms this] obtain s1 where
    s1: "isr_steps n s = Some s1" "rawpixelsetbuffer s1 = rawpixelsetbuffer s"
      "displayedRawPixelSet s1 = displayedRawPixelSet s"
      "bufferedRawPixelSet s1 = bufferedRawPixelSet s"
      "pendingRawPixelBufferSwap s1 = pendingRawPixelBufferSwap s"
      "swapChecks s1 = swapChecks s"
      "frame_pos s1 = frame_pos s + n" "wf_cursor s1"
    by blast
  have "isr_steps (30 - frame_pos s) s = pixel_isr s1"
    unfolding n(2) isr_steps_add [of n 1 s] s1(1) by (simp split: option.splits)
  with s1 n(1) show ?thesis
    unfolding n_def [symmetric] by simp
qed

lemma pixel_isr_delivered:
  assumes "pixel_isr s = Some s'"
  shows "timer0_overflow_delivered s' = timer0_overflow_delivered s"
  using assms
  by (auto simp: isr_defs timer0_overflow_delivered_def split: if_splits)

lemma isr_steps_delivered:
  "isr_steps n s = Some s' \<Longrightarrow> timer0_overflow_delivered s' = timer0_overflow_delivered s"
proof (induction n arbitrary: s)
  case 0
  then show ?case by simp
next
  case (Suc n)
  then obtain s1 where s1: "pixel_isr s = Some s1" "isr_steps n s1 = Some s'"
    by (auto split: option.splits)
  from Suc.IH [OF s1(2)] pixel_isr_delivered [OF s1(1)] show ?case by simp
qed

text \<open>With the flag raised, the call at the frame boundary exchanges the pointers.\<close>

lemma isr_steps_frame_swap:
  assumes "wf_cursor s" and "pendingRawPixelBufferSwap s \<noteq> 0"
  shows "\<exists>s'. isr_steps (30 - frame_pos s) s = Some s' \<and>
           rawpixelsetbuffer s' = rawpixelsetbuffer s \<and>
           displayedRawPixelSet s' = bufferedRawPixelSet s \<and>
           bufferedRawPixelSet s' = displayedRawPixelSet s \<and>
           pendingRawPixelBufferSwap s' = 0 \<and>
           currentPixelIndex s' = 0 \<and> phase s' = 0"
proof -
  from isr_steps_to_boundary [OF assms(1)] obtain s1 where
    s1: "wf_cursor s1" "frame_pos s1 = 29"
      "rawpixelsetbuffer s1 = rawpixelsetbuffer s"
      "displayedRawPixelSet s1 = displayedRawPixelSet s"
      "bufferedRawPixelSet s1 = bufferedRawPixelSet s"
      "pendingRawPixelBufferSwap s1 = pendingRawPixelBufferSwap s"
      "isr_steps (30 - frame_pos s) s = pixel_isr s1"
    by blast
  from pixel_isr_wrap [OF s1(1,2)] s1(3-7) assms(2) show ?thesis
    by simp
qed

subsection \<open>The busy wait\<close>

lemma sei_delivered: "timer0_overflow_delivered s \<Longrightarrow> sei s = s"
  by (simp add: timer0_overflow_delivered_def sei_def)

lemma wait_done:
  "pendingRawPixelBufferSwap s = 0 \<Longrightarrow> wait_pendingRawPixelBufferSwap s = Some s"
  by (subst wait_pendingRawPixelBufferSwap.simps) simp

lemma wait_step:
  "pendingRawPixelBufferSwap s \<noteq> 0 \<Longrightarrow> timer0_overflow_delivered s \<Longrightarrow>
   pixel_isr s = Some s' \<Longrightarrow>
   wait_pendingRawPixelBufferSwap s = wait_pendingRawPixelBufferSwap s'"
  by (subst wait_pendingRawPixelBufferSwap.simps) (simp add: TIMER0_OVF_vect_def sei_delivered)

text \<open>Without the interrupt the flag stays set and the wait never ends.\<close>

lemma wait_returns_only_delivered:
  assumes "wait_pendingRawPixelBufferSwap s = Some s'"
  shows "pendingRawPixelBufferSwap s = 0 \<or> timer0_overflow_delivered s"
  by (rule wait_pendingRawPixelBufferSwap.raw_induct
        [where P = "\<lambda>x y. pendingRawPixelBufferSwap x = 0 \<or> timer0_overflow_delivered x",
          OF _ assms])
    (auto split: if_splits)

lemma wait_spins:
  assumes "pendingRawPixelBufferSwap s \<noteq> 0" and "\<not> timer0_overflow_delivered s"
  shows "wait_pendingRawPixelBufferSwap s = None"
proof (cases "wait_pendingRawPixelBufferSwap s")
  case None
  then show ?thesis .
next
  case (Some s')
  from wait_returns_only_delivered [OF this] assms show ?thesis by simp
qed

lemma wait_steps:
  "pendingRawPixelBufferSwap s \<noteq> 0 \<Longrightarrow> timer0_overflow_delivered s \<Longrightarrow>
   wf_cursor s \<Longrightarrow> frame_pos s + n \<le> 29 \<Longrightarrow> isr_steps n s = Some s' \<Longrightarrow>
   wait_pendingRawPixelBufferSwap s = wait_pendingRawPixelBufferSwap s'"
proof (induction n arbitrary: s)
  case 0
  then show ?case by simp
next
  case (Suc n)
  from Suc.prems have "frame_pos s \<noteq> 29" by simp
  from pixel_isr_mid [OF Suc.prems(3) this] obtain s1 where
    s1: "pixel_isr s = Some s1"
      "pendingRawPixelBufferSwap s1 = pendingRawPixelBufferSwap s"
      "frame_pos s1 = frame_pos s + 1" "wf_cursor s1"
    by blast
  from pixel_isr_delivered [OF s1(1)] Suc.prems(2) have d: "timer0_overflow_delivered s1"
    by simp
  from s1 d Suc.prems have "wait_pendingRawPixelBufferSwap s1 = wait_pendingRawPixelBufferSwap s'"
    by (intro Suc.IH) simp_all
  with wait_step [OF Suc.prems(1,2) s1(1)] show ?case by simp
qed

text \<open>
  With the flag raised, the interrupt delivered and the cursor in range, the wait ends:
  it takes the calls up to the frame boundary, where the handler exchanges the pointers
  and clears the flag.
\<close>

lemma wait_result:
  assumes "wf_cursor s" and "pendingRawPixelBufferSwap s \<noteq> 0"
    and "timer0_overflow_delivered s"
  shows "\<exists>s'. wait_pendingRawPixelBufferSwap s = Some s' \<and>
           rawpixelsetbuffer s' = rawpixelsetbuffer s \<and>
           displayedRawPixelSet s' = bufferedRawPixelSet s \<and>
           bufferedRawPixelSet s' = displayedRawPixelSet s \<and>
           pendingRawPixelBufferSwap s' = 0 \<and>
           currentPixelIndex s' = 0 \<and> phase s' = 0 \<and>
           timer0_overflow_delivered s'"
proof -
  from isr_steps_to_boundary [OF assms(1)] obtain s1 where
    s1: "isr_steps (29 - frame_pos s) s = Some s1" "wf_cursor s1" "frame_pos s1 = 29"
      "rawpixelsetbuffer s1 = rawpixelsetbuffer s"
      "displayedRawPixelSet s1 = displayedRawPixelSet s"
      "bufferedRawPixelSet s1 = bufferedRawPixelSet s"
      "pendingRawPixelBufferSwap s1 = pendingRawPixelBufferSwap s"
    by blast
  from isr_steps_delivered [OF s1(1)] assms(3) have d1: "timer0_overflow_delivered s1"
    by simp
  define s2 where
    "s2 = s1\<lparr> OCR0B := 255, phase := 0, currentPixelIndex := 0,
              swapChecks := swapChecks s1 + 1,
              displayedRawPixelSet := bufferedRawPixelSet s1,
              bufferedRawPixelSet := displayedRawPixelSet s1,
              pendingRawPixelBufferSwap := 0 \<rparr>"
  from pixel_isr_wrap [OF s1(2,3)] s1(7) assms(2) have s2: "pixel_isr s1 = Some s2"
    by (simp add: s2_def)
  from pixel_isr_delivered [OF s2] d1 have d2: "timer0_overflow_delivered s2"
    by simp
  from frame_pos_bound [OF assms(1)] have "frame_pos s + (29 - frame_pos s) \<le> 29"
    by simp
  from wait_steps [OF assms(2,3,1) this s1(1)]
  have "wait_pendingRawPixelBufferSwap s = wait_pendingRawPixelBufferSwap s1" .
  also have "\<dots> = wait_pendingRawPixelBufferSwap s2"
    using s1(7) assms(2) d1 s2 by (intro wait_step) simp_all
  also have "\<dots> = Some s2"
    by (rule wait_done) (simp add: s2_def)
  finally have "wait_pendingRawPixelBufferSwap s = Some s2" .
  with s1 d2 show ?thesis
    by (intro exI [of _ s2]) (simp add: s2_def)
qed

subsection \<open>\<open>pixel_displayBufferedPixels\<close>\<close>

text \<open>
  With the interrupt delivered the call returns; the pointers are exchanged, and the set
  that was displayed is overwritten with the one that was buffered.
\<close>

lemma display_result:
  assumes "wf_cursor s" and "timer0_overflow_delivered s"
  shows "\<exists>s'. pixel_displayBufferedPixels s = Some s' \<and>
           rawpixelsetbuffer s' =
             (rawpixelsetbuffer s)
               [displayedRawPixelSet s := rawpixelsetbuffer s ! bufferedRawPixelSet s] \<and>
           displayedRawPixelSet s' = bufferedRawPixelSet s \<and>
           bufferedRawPixelSet s' = displayedRawPixelSet s \<and>
           pendingRawPixelBufferSwap s' = 0 \<and>
           currentPixelIndex s' = 0 \<and> phase s' = 0 \<and>
           timer0_overflow_delivered s'"
proof -
  let ?s0 = "s\<lparr> pendingRawPixelBufferSwap := 1 \<rparr>"
  from assms have "wf_cursor ?s0" "pendingRawPixelBufferSwap ?s0 \<noteq> 0"
    "timer0_overflow_delivered ?s0"
    by (simp_all add: wf_cursor_def timer0_overflow_delivered_def)
  from wait_result [OF this] obtain s1 where
    "wait_pendingRawPixelBufferSwap ?s0 = Some s1"
    "rawpixelsetbuffer s1 = rawpixelsetbuffer s"
    "displayedRawPixelSet s1 = bufferedRawPixelSet s"
    "bufferedRawPixelSet s1 = displayedRawPixelSet s"
    "pendingRawPixelBufferSwap s1 = 0" "currentPixelIndex s1 = 0" "phase s1 = 0"
    "timer0_overflow_delivered s1"
    by auto
  then show ?thesis
    by (simp add: pixel_displayBufferedPixels_def memcpy_buffered_from_displayed_def
        timer0_overflow_delivered_def)
qed

text \<open>Without the interrupt the call does not return.\<close>

lemma display_spins:
  assumes "\<not> timer0_overflow_delivered s"
  shows "pixel_displayBufferedPixels s = None"
proof -
  let ?s0 = "s\<lparr> pendingRawPixelBufferSwap := 1 \<rparr>"
  from assms have "pendingRawPixelBufferSwap ?s0 \<noteq> 0" "\<not> timer0_overflow_delivered ?s0"
    by (simp_all add: timer0_overflow_delivered_def)
  from wait_spins [OF this] show ?thesis
    by (simp add: pixel_displayBufferedPixels_def)
qed

lemma display_sets:
  assumes "wf_store s" and "wf_cursor s" and "timer0_overflow_delivered s"
  shows "\<exists>s'. pixel_displayBufferedPixels s = Some s' \<and>
           displayed_set s' = buffered_set s \<and> buffered_set s' = buffered_set s \<and>
           bufferedRawPixelSet s' = displayedRawPixelSet s \<and>
           wf_store s' \<and> wf_cursor s' \<and> timer0_overflow_delivered s'"
proof -
  from display_result [OF assms(2,3)] obtain s' where
    s': "pixel_displayBufferedPixels s = Some s'"
      "rawpixelsetbuffer s' =
         (rawpixelsetbuffer s)
           [displayedRawPixelSet s := rawpixelsetbuffer s ! bufferedRawPixelSet s]"
      "displayedRawPixelSet s' = bufferedRawPixelSet s"
      "bufferedRawPixelSet s' = displayedRawPixelSet s"
      "currentPixelIndex s' = 0" "phase s' = 0" "timer0_overflow_delivered s'"
    by blast
  from assms(1) obtain x0 x1 where bufs: "rawpixelsetbuffer s = [x0, x1]"
    by (auto simp: wf_store_def store_allocated_def RAW_PIXEL_SET_BUFFER_COUNT_def length_2_conv)
  from assms(1) have ptrs:
    "displayedRawPixelSet s = 0 \<and> bufferedRawPixelSet s = 1 \<or>
     displayedRawPixelSet s = 1 \<and> bufferedRawPixelSet s = 0"
    by (auto simp: wf_store_def RAW_PIXEL_SET_BUFFER_COUNT_def)
  from ptrs assms(1) bufs s'(2-4) have
    "displayed_set s' = buffered_set s \<and> buffered_set s' = buffered_set s \<and> wf_store s'"
    by (auto simp: displayed_set_def buffered_set_def wf_store_def store_allocated_def
        RAW_PIXEL_SET_BUFFER_COUNT_def)
  moreover from s'(5,6) have "wf_cursor s'"
    by (simp add: wf_cursor_def PIXEL_COUNT_def)
  ultimately show ?thesis using s'(1,4,7) by simp
qed

subsection \<open>The invariant holds from program start\<close>

lemmas timer_defs = pixel_enable_def pixelTimersOn_def pixel_disable_def pixelTimerOff_def
  holdTimers_def releaseTimers_def sei_def setupTimers_def deactivateAnodes_def Let_def

lemma wf_state_boot: "wf_state boot_state"
  by (simp add: wf_state_def wf_store_def store_allocated_def wf_cursor_def boot_state_def
      RAW_PIXEL_SET_BUFFER_COUNT_def PIXEL_COUNT_def list_all_iff)

lemma wf_state_pixel_init: "wf_state s \<Longrightarrow> wf_state (pixel_init s)"
  by (simp add: wf_state_def wf_store_def store_allocated_def wf_cursor_def pixel_init_def
      setupTimers_def init_rawpixelsets_all_off list_all_iff)

lemma wf_state_timers:
  "wf_state (pixel_enable s) = wf_state s"
  "wf_state (pixel_disable s) = wf_state s"
  "wf_state (sei s) = wf_state s"
  by (simp_all add: wf_state_def wf_store_def store_allocated_def wf_cursor_def timer_defs)

lemma wf_state_pixel_isr:
  assumes "wf_state s"
  shows "\<exists>s'. pixel_isr s = Some s' \<and> wf_state s'"
proof (cases "frame_pos s = 29")
  case False
  from assms have "wf_cursor s" by (simp add: wf_state_def)
  from pixel_isr_mid [OF this False] assms show ?thesis
    by (auto simp: wf_state_def wf_store_def store_allocated_def)
next
  case True
  from assms have "wf_cursor s" by (simp add: wf_state_def)
  from pixel_isr_wrap [OF this True] assms show ?thesis
    by (auto simp: wf_state_def wf_store_def store_allocated_def wf_cursor_def PIXEL_COUNT_def)
qed

lemma wf_state_display:
  assumes "wf_state s" and "timer0_overflow_delivered s"
  shows "\<exists>s'. pixel_displayBufferedPixels s = Some s' \<and> wf_state s' \<and>
           timer0_overflow_delivered s'"
  using display_sets [of s] assms by (auto simp: wf_state_def)

subsection \<open>When the overflow interrupt is delivered\<close>

text \<open>
  \<open>pixel_init\<close> enables the interrupt in its mask register, \<open>pixel_enable\<close> starts the
  timer, and with the global flag set the interrupt is delivered. \<open>pixel_init\<close> alone does
  not start the timer, and \<open>pixel_disable\<close> stops it.
\<close>

lemma delivered_after_enable:
  "timer0_overflow_delivered (sei (pixel_enable s)) = TIMSK0_TOIE0 s"
  by (simp add: timer0_overflow_delivered_def timer_defs)

lemma not_delivered_after_init_only: "\<not> timer0_overflow_delivered (pixel_init boot_state)"
  by (simp add: timer0_overflow_delivered_def pixel_init_def setupTimers_def boot_state_def)

lemma not_delivered_after_disable: "\<not> timer0_overflow_delivered (pixel_disable s)"
  by (simp add: timer0_overflow_delivered_def timer_defs)

lemma display_spins_after_init_only:
  "pixel_displayBufferedPixels (pixel_init boot_state) = None"
  by (rule display_spins [OF not_delivered_after_init_only])

lemma display_spins_after_disable:
  "pixel_displayBufferedPixels (pixel_disable s) = None"
  by (rule display_spins [OF not_delivered_after_disable])

lemma delivered_setters:
  "timer0_overflow_delivered (write_rawpixel p pixel f s) = timer0_overflow_delivered s"
  by (simp add: timer0_overflow_delivered_def write_rawpixel_def)

subsection \<open>The states used as examples\<close>

lemma running_state_wf: "wf_state running_state"
  by (simp add: running_state_def wf_state_timers wf_state_pixel_init wf_state_boot)

lemma running_state_delivered: "timer0_overflow_delivered running_state"
  by (simp add: running_state_def delivered_after_enable pixel_init_def setupTimers_def)

lemma running_state_sets:
  "displayed_set running_state = replicate PIXEL_COUNT raw_off"
  "buffered_set running_state = replicate PIXEL_COUNT raw_off"
  by (simp_all add: running_state_def displayed_set_def buffered_set_def timer_defs
      pixel_init_def boot_state_def init_rawpixelsets_all_off RAW_PIXEL_SET_BUFFER_COUNT_def
      eval_nat_numeral)

lemma write_rawpixel_frame:
  assumes "wf_store s" and "pixel < PIXEL_COUNT"
  shows "displayed_set (write_rawpixel (bufferedRawPixelSet s) pixel f s) = displayed_set s"
    and "buffered_set (write_rawpixel (bufferedRawPixelSet s) pixel f s) =
           (buffered_set s)[pixel := f (buffered_set s ! pixel)]"
    and "wf_store (write_rawpixel (bufferedRawPixelSet s) pixel f s)"
proof -
  from assms(1) obtain x0 x1 where bufs: "rawpixelsetbuffer s = [x0, x1]"
    by (auto simp: wf_store_def store_allocated_def RAW_PIXEL_SET_BUFFER_COUNT_def length_2_conv)
  from assms(1) have ptrs:
    "displayedRawPixelSet s = 0 \<and> bufferedRawPixelSet s = 1 \<or>
     displayedRawPixelSet s = 1 \<and> bufferedRawPixelSet s = 0"
    by (auto simp: wf_store_def RAW_PIXEL_SET_BUFFER_COUNT_def)
  from ptrs bufs
  show "displayed_set (write_rawpixel (bufferedRawPixelSet s) pixel f s) = displayed_set s"
    by (auto simp: displayed_set_def write_rawpixel_def)
  from ptrs bufs
  show "buffered_set (write_rawpixel (bufferedRawPixelSet s) pixel f s) =
          (buffered_set s)[pixel := f (buffered_set s ! pixel)]"
    by (auto simp: buffered_set_def write_rawpixel_def)
  from ptrs bufs assms(1)
  show "wf_store (write_rawpixel (bufferedRawPixelSet s) pixel f s)"
    by (auto simp: wf_store_def store_allocated_def write_rawpixel_def
        RAW_PIXEL_SET_BUFFER_COUNT_def)
qed

lemma write_rawpixel_other_fields:
  "displayedRawPixelSet (write_rawpixel p pixel f s) = displayedRawPixelSet s"
  "bufferedRawPixelSet (write_rawpixel p pixel f s) = bufferedRawPixelSet s"
  "wf_cursor (write_rawpixel p pixel f s) = wf_cursor s"
  "write_rawpixel p pixel f s =
     s\<lparr> rawpixelsetbuffer := rawpixelsetbuffer (write_rawpixel p pixel f s) \<rparr>"
  by (simp_all add: write_rawpixel_def wf_cursor_def)

lemma wf_state_pixel_bufferedSetPixelRaw:
  assumes "wf_state s" and "pixel_bufferedSetPixelRaw pixel r_pwm g_pwm b_pwm s = Some s'"
  shows "wf_state s'"
  using assms write_rawpixel_frame(3) [of s "unat pixel"]
  by (auto simp: pixel_bufferedSetPixelRaw_def wf_state_def write_rawpixel_other_fields(3)
      split: if_splits)

lemma wf_state_pixel_bufferedSetPixel:
  assumes "wf_state s" and "pixel_bufferedSetPixel pixel newColor s = Some s'"
  shows "wf_state s'"
  using assms write_rawpixel_frame(3) [of s "unat pixel"]
  by (auto simp: pixel_bufferedSetPixel_def wf_state_def write_rawpixel_other_fields(3)
      split: if_splits option.splits)

lemma length_buffered_set: "wf_store s \<Longrightarrow> length (buffered_set s) = PIXEL_COUNT"
  by (auto simp: wf_store_def store_allocated_def buffered_set_def list_all_length)

lemma length_displayed_set: "wf_store s \<Longrightarrow> length (displayed_set s) = PIXEL_COUNT"
  by (auto simp: wf_store_def store_allocated_def displayed_set_def list_all_length)

section \<open>The gamma tables\<close>

lemma gamma_tables_decreasing:
  "sorted_wrt (\<lambda>x y. y \<le> x) gamma8R"
  "sorted_wrt (\<lambda>x y. y \<le> x) gamma8G"
  "sorted_wrt (\<lambda>x y. y \<le> x) gamma8B"
  by (simp_all add: gamma8R_def gamma8G_def gamma8B_def)

lemma gamma_tables_length:
  "length gamma8R = 32" "length gamma8G = 32" "length gamma8B = 32"
  by (simp_all add: gamma8R_def gamma8G_def gamma8B_def)

lemma pgm_read_byte_mono:
  assumes "sorted_wrt (\<lambda>x y. y \<le> x) table" and "unat i \<le> unat j" and "unat j < length table"
  shows "\<exists>vi vj. pgm_read_byte table i = Some vi \<and> pgm_read_byte table j = Some vj \<and> vj \<le> vi"
  using assms nth_mono_decreasing [OF assms] by (simp add: pgm_read_byte_def)

text \<open>
  C3: for all inputs 0..31 the raw compare value that \<open>pixel_bufferedSetPixel\<close> reads from
  its lookup table does not increase when the brightness input increases, and input 0
  reads the raw off value 255, on each of the three channels.
\<close>

theorem gamma_lookup_non_increasing:
  assumes "unat i \<le> unat j" and "unat j < 32"
  shows "(\<exists>vi vj. pgm_read_byte gamma8R i = Some vi \<and> pgm_read_byte gamma8R j = Some vj \<and> vj \<le> vi) \<and>
         (\<exists>vi vj. pgm_read_byte gamma8G i = Some vi \<and> pgm_read_byte gamma8G j = Some vj \<and> vj \<le> vi) \<and>
         (\<exists>vi vj. pgm_read_byte gamma8B i = Some vi \<and> pgm_read_byte gamma8B j = Some vj \<and> vj \<le> vi) \<and>
         pgm_read_byte gamma8R 0 = Some 255 \<and>
         pgm_read_byte gamma8G 0 = Some 255 \<and>
         pgm_read_byte gamma8B 0 = Some 255"
proof -
  have "pgm_read_byte gamma8R 0 = Some 255" "pgm_read_byte gamma8G 0 = Some 255"
    "pgm_read_byte gamma8B 0 = Some 255"
    by (simp_all add: pgm_read_byte_def gamma8R_def gamma8G_def gamma8B_def)
  moreover from assms have
    "\<exists>vi vj. pgm_read_byte gamma8R i = Some vi \<and> pgm_read_byte gamma8R j = Some vj \<and> vj \<le> vi"
    by (intro pgm_read_byte_mono gamma_tables_decreasing) (simp_all add: gamma_tables_length)
  moreover from assms have
    "\<exists>vi vj. pgm_read_byte gamma8G i = Some vi \<and> pgm_read_byte gamma8G j = Some vj \<and> vj \<le> vi"
    by (intro pgm_read_byte_mono gamma_tables_decreasing) (simp_all add: gamma_tables_length)
  moreover from assms have
    "\<exists>vi vj. pgm_read_byte gamma8B i = Some vi \<and> pgm_read_byte gamma8B j = Some vj \<and> vj \<le> vi"
    by (intro pgm_read_byte_mono gamma_tables_decreasing) (simp_all add: gamma_tables_length)
  ultimately show ?thesis by simp
qed

theorem gamma_lookup_non_increasing_witness:
  "unat (7 :: u8) \<le> unat (30 :: u8) \<and> unat (30 :: u8) < 32 \<and>
   pgm_read_byte gamma8R 7 = Some 242 \<and> pgm_read_byte gamma8R 30 = Some 3 \<and>
   (\<exists>vi vj. pgm_read_byte gamma8G 7 = Some vi \<and> pgm_read_byte gamma8G 30 = Some vj \<and> vj \<le> vi) \<and>
   (\<exists>vi vj. pgm_read_byte gamma8B 7 = Some vi \<and> pgm_read_byte gamma8B 30 = Some vj \<and> vj \<le> vi)"
proof -
  have h: "unat (7 :: u8) \<le> unat (30 :: u8)" "unat (30 :: u8) < 32"
    by simp_all
  have v: "pgm_read_byte gamma8R 7 = Some 242" "pgm_read_byte gamma8R 30 = Some 3"
    by (simp_all add: pgm_read_byte_def gamma8R_def)
  from gamma_lookup_non_increasing [OF h] h v show ?thesis
    by blast
qed

lemma gamma_tables_equal: "gamma8G = gamma8R" "gamma8B = gamma8R"
  by (simp_all add: gamma8R_def gamma8G_def gamma8B_def)

section \<open>Writes to the buffered set\<close>

lemma rawpixel_overwrite:
  "(x :: rawpixel_t)\<lparr> rawValueR := vr, rawValueG := vg, rawValueB := vb \<rparr> =
     \<lparr> rawValueR = vr, rawValueG = vg, rawValueB = vb \<rparr>"
  by (cases x) simp

lemma pixel_bufferedSetPixelRaw_result:
  assumes "unat pixel < PIXEL_COUNT"
  shows "pixel_bufferedSetPixelRaw pixel r_pwm g_pwm b_pwm s =
           Some (write_rawpixel (bufferedRawPixelSet s) (unat pixel)
                   (\<lambda>rawpixel. \<lparr> rawValueR = r_pwm, rawValueG = g_pwm, rawValueB = b_pwm \<rparr>) s)"
  using assms by (simp add: pixel_bufferedSetPixelRaw_def rawpixel_overwrite)

lemma pixel_bufferedSetPixel_result:
  assumes "unat pixel < PIXEL_COUNT"
    and "unat (r newColor) < 32" and "unat (g newColor) < 32" and "unat (b newColor) < 32"
  shows "pixel_bufferedSetPixel pixel newColor s =
           Some (write_rawpixel (bufferedRawPixelSet s) (unat pixel)
                   (\<lambda>rawpixel. \<lparr> rawValueR = gamma8R ! unat (r newColor),
                                  rawValueG = gamma8G ! unat (g newColor),
                                  rawValueB = gamma8B ! unat (b newColor) \<rparr>) s)"
  using assms
  by (simp add: pixel_bufferedSetPixel_def pgm_read_byte_def gamma_tables_length
      rawpixel_overwrite)

text \<open>What a write through the buffered pointer leaves as it was.\<close>

lemma write_rawpixel_buffered:
  assumes "wf_store s" and "pixel < PIXEL_COUNT"
    and "s' = write_rawpixel (bufferedRawPixelSet s) pixel (\<lambda>rawpixel. v) s"
  shows "displayed_set s' = displayed_set s \<and>
         buffered_set s' = (buffered_set s)[pixel := v] \<and>
         buffered_set s' ! pixel = v \<and>
         (\<forall>i. i \<noteq> pixel \<longrightarrow> buffered_set s' ! i = buffered_set s ! i) \<and>
         s' = s\<lparr> rawpixelsetbuffer := rawpixelsetbuffer s' \<rparr> \<and>
         wf_store s' \<and> wf_cursor s' = wf_cursor s"
  unfolding assms(3)
  using write_rawpixel_frame [OF assms(1,2)] write_rawpixel_other_fields(3,4)
    length_buffered_set [OF assms(1)] assms(2)
  by simp

text \<open>
  C8: for an index in range, \<open>pixel_bufferedSetPixelRaw\<close> and \<open>pixel_bufferedSetPixel\<close>
  write the three channels of the addressed slot of the buffered set and nothing else:
  the displayed set, every other slot of the buffered set and all other state variables
  are as before.
\<close>

theorem set_pixel_writes_only_buffered_slot:
  assumes "wf_store s" and "unat pixel < PIXEL_COUNT"
  shows "(\<exists>s'. pixel_bufferedSetPixelRaw pixel r_pwm g_pwm b_pwm s = Some s' \<and>
            displayed_set s' = displayed_set s \<and>
            buffered_set s' =
              (buffered_set s)
                [unat pixel := \<lparr> rawValueR = r_pwm, rawValueG = g_pwm, rawValueB = b_pwm \<rparr>] \<and>
            (\<forall>i. i \<noteq> unat pixel \<longrightarrow> buffered_set s' ! i = buffered_set s ! i) \<and>
            s' = s\<lparr> rawpixelsetbuffer := rawpixelsetbuffer s' \<rparr>) \<and>
         (unat (r newColor) < 32 \<and> unat (g newColor) < 32 \<and> unat (b newColor) < 32 \<longrightarrow>
          (\<exists>s'. pixel_bufferedSetPixel pixel newColor s = Some s' \<and>
            displayed_set s' = displayed_set s \<and>
            buffered_set s' =
              (buffered_set s)
                [unat pixel := \<lparr> rawValueR = gamma8R ! unat (r newColor),
                                  rawValueG = gamma8G ! unat (g newColor),
                                  rawValueB = gamma8B ! unat (b newColor) \<rparr>] \<and>
            (\<forall>i. i \<noteq> unat pixel \<longrightarrow> buffered_set s' ! i = buffered_set s ! i) \<and>
            s' = s\<lparr> rawpixelsetbuffer := rawpixelsetbuffer s' \<rparr>))"
proof (intro conjI impI)
  show "\<exists>s'. pixel_bufferedSetPixelRaw pixel r_pwm g_pwm b_pwm s = Some s' \<and>
            displayed_set s' = displayed_set s \<and>
            buffered_set s' =
              (buffered_set s)
                [unat pixel := \<lparr> rawValueR = r_pwm, rawValueG = g_pwm, rawValueB = b_pwm \<rparr>] \<and>
            (\<forall>i. i \<noteq> unat pixel \<longrightarrow> buffered_set s' ! i = buffered_set s ! i) \<and>
            s' = s\<lparr> rawpixelsetbuffer := rawpixelsetbuffer s' \<rparr>"
    using write_rawpixel_buffered [OF assms refl]
    unfolding pixel_bufferedSetPixelRaw_result [OF assms(2)] by blast
next
  assume "unat (r newColor) < 32 \<and> unat (g newColor) < 32 \<and> unat (b newColor) < 32"
  then have c: "unat (r newColor) < 32" "unat (g newColor) < 32" "unat (b newColor) < 32"
    by simp_all
  show "\<exists>s'. pixel_bufferedSetPixel pixel newColor s = Some s' \<and>
            displayed_set s' = displayed_set s \<and>
            buffered_set s' =
              (buffered_set s)
                [unat pixel := \<lparr> rawValueR = gamma8R ! unat (r newColor),
                                  rawValueG = gamma8G ! unat (g newColor),
                                  rawValueB = gamma8B ! unat (b newColor) \<rparr>] \<and>
            (\<forall>i. i \<noteq> unat pixel \<longrightarrow> buffered_set s' ! i = buffered_set s ! i) \<and>
            s' = s\<lparr> rawpixelsetbuffer := rawpixelsetbuffer s' \<rparr>"
    using write_rawpixel_buffered [OF assms refl]
    unfolding pixel_bufferedSetPixel_result [OF assms(2) c] by blast
qed

theorem set_pixel_writes_only_buffered_slot_witness:
  "wf_store (pixel_init boot_state) \<and> unat (2 :: u8) < PIXEL_COUNT \<and>
   (\<exists>s'. pixel_bufferedSetPixelRaw 2 10 20 30 (pixel_init boot_state) = Some s' \<and>
      displayed_set s' = displayed_set (pixel_init boot_state) \<and>
      buffered_set s' ! 2 = \<lparr> rawValueR = 10, rawValueG = 20, rawValueB = 30 \<rparr> \<and>
      buffered_set s' ! 3 = buffered_set (pixel_init boot_state) ! 3) \<and>
   unat (r \<lparr> r = 31, g = 0, b = 0 \<rparr>) < 32 \<and>
   unat (g \<lparr> r = 31, g = 0, b = 0 \<rparr>) < 32 \<and>
   unat (b \<lparr> r = 31, g = 0, b = 0 \<rparr>) < 32 \<and>
   (\<exists>s'. pixel_bufferedSetPixel 2 \<lparr> r = 31, g = 0, b = 0 \<rparr> (pixel_init boot_state) = Some s' \<and>
      displayed_set s' = displayed_set (pixel_init boot_state) \<and>
      buffered_set s' ! 3 = buffered_set (pixel_init boot_state) ! 3)"
proof -
  let ?s = "pixel_init boot_state"
  let ?c = "\<lparr> r = 31, g = 0, b = 0 \<rparr>"
  have h: "wf_store ?s" "unat (2 :: u8) < PIXEL_COUNT"
    using wf_state_pixel_init [OF wf_state_boot] by (simp_all add: wf_state_def PIXEL_COUNT_def)
  have c: "unat (r ?c) < 32 \<and> unat (g ?c) < 32 \<and> unat (b ?c) < 32"
    by simp
  from h have len: "length (buffered_set ?s) = 6"
    by (simp add: length_buffered_set PIXEL_COUNT_def)
  from set_pixel_writes_only_buffered_slot [OF h, of 10 20 30 ?c] c
  obtain s1 s2 where
    s1: "pixel_bufferedSetPixelRaw 2 10 20 30 ?s = Some s1"
      "displayed_set s1 = displayed_set ?s"
      "buffered_set s1 =
         (buffered_set ?s)[unat (2 :: u8) := \<lparr> rawValueR = 10, rawValueG = 20, rawValueB = 30 \<rparr>]"
      "\<forall>i. i \<noteq> unat (2 :: u8) \<longrightarrow> buffered_set s1 ! i = buffered_set ?s ! i" and
    s2: "pixel_bufferedSetPixel 2 ?c ?s = Some s2"
      "displayed_set s2 = displayed_set ?s"
      "\<forall>i. i \<noteq> unat (2 :: u8) \<longrightarrow> buffered_set s2 ! i = buffered_set ?s ! i"
    by blast
  from s1(3) len have "buffered_set s1 ! 2 = \<lparr> rawValueR = 10, rawValueG = 20, rawValueB = 30 \<rparr>"
    by simp
  moreover from s1(4) have "buffered_set s1 ! 3 = buffered_set ?s ! 3"
    by simp
  moreover from s2(3) have "buffered_set s2 ! 3 = buffered_set ?s ! 3"
    by simp
  ultimately show ?thesis
    using h c s1(1,2) s2(1,2) by simp
qed

text \<open>
  C10: the three gamma tables are the same list, so \<open>pixel_bufferedSetPixel\<close> gives every
  channel the same raw compare value for the same input 0..31: a colour with equal
  \<open>r\<close>, \<open>g\<close>, \<open>b\<close> is written as a raw pixel with equal \<open>rawValueR\<close>, \<open>rawValueG\<close>,
  \<open>rawValueB\<close>.
\<close>

theorem gamma_tables_identical:
  assumes "wf_store s" and "unat pixel < PIXEL_COUNT"
    and "unat (r newColor) < 32" and "g newColor = r newColor" and "b newColor = r newColor"
  shows "gamma8R = gamma8G \<and> gamma8G = gamma8B \<and>
         pgm_read_byte gamma8G (r newColor) = pgm_read_byte gamma8R (r newColor) \<and>
         pgm_read_byte gamma8B (r newColor) = pgm_read_byte gamma8R (r newColor) \<and>
         (\<exists>s'. pixel_bufferedSetPixel pixel newColor s = Some s' \<and>
            rawValueR (buffered_set s' ! unat pixel) = rawValueG (buffered_set s' ! unat pixel) \<and>
            rawValueG (buffered_set s' ! unat pixel) = rawValueB (buffered_set s' ! unat pixel))"
proof -
  from assms(3-5) have c: "unat (r newColor) < 32" "unat (g newColor) < 32" "unat (b newColor) < 32"
    by simp_all
  let ?s' = "write_rawpixel (bufferedRawPixelSet s) (unat pixel)
               (\<lambda>rawpixel. \<lparr> rawValueR = gamma8R ! unat (r newColor),
                              rawValueG = gamma8G ! unat (g newColor),
                              rawValueB = gamma8B ! unat (b newColor) \<rparr>) s"
  from write_rawpixel_buffered [OF assms(1,2) refl]
  have "buffered_set ?s' ! unat pixel =
          \<lparr> rawValueR = gamma8R ! unat (r newColor), rawValueG = gamma8G ! unat (g newColor),
            rawValueB = gamma8B ! unat (b newColor) \<rparr>"
    by blast
  with assms(4,5) pixel_bufferedSetPixel_result [OF assms(2) c, of s] show ?thesis
    by (simp add: gamma_tables_equal)
qed

theorem gamma_tables_identical_witness:
  "wf_store (pixel_init boot_state) \<and> unat (4 :: u8) < PIXEL_COUNT \<and>
   unat (r \<lparr> r = 17, g = 17, b = 17 \<rparr>) < 32 \<and>
   g \<lparr> r = 17, g = 17, b = 17 \<rparr> = r \<lparr> r = 17, g = 17, b = 17 \<rparr> \<and>
   b \<lparr> r = 17, g = 17, b = 17 \<rparr> = r \<lparr> r = 17, g = 17, b = 17 \<rparr> \<and>
   (\<exists>s'. pixel_bufferedSetPixel 4 \<lparr> r = 17, g = 17, b = 17 \<rparr> (pixel_init boot_state) = Some s' \<and>
      rawValueR (buffered_set s' ! unat (4 :: u8)) = rawValueG (buffered_set s' ! unat (4 :: u8)) \<and>
      rawValueG (buffered_set s' ! unat (4 :: u8)) = rawValueB (buffered_set s' ! unat (4 :: u8)))"
proof -
  let ?s = "pixel_init boot_state"
  let ?c = "\<lparr> r = 17, g = 17, b = 17 \<rparr>"
  have h: "wf_store ?s" "unat (4 :: u8) < PIXEL_COUNT"
    using wf_state_pixel_init [OF wf_state_boot] by (simp_all add: wf_state_def PIXEL_COUNT_def)
  have c: "unat (r ?c) < 32" "g ?c = r ?c" "b ?c = r ?c"
    by simp_all
  from gamma_tables_identical [OF h c] h c show ?thesis
    by blast
qed

section \<open>Initialisation\<close>

text \<open>
  C9: after \<open>pixel_init\<close> every slot of both buffers (6 pixels in each of the 2 sets) holds
  the all-off raw value (255, 255, 255).
\<close>

theorem pixel_init_all_off:
  assumes "store_allocated s"
  shows "length (rawpixelsetbuffer (pixel_init s)) = 2 \<and>
         (\<forall>i < 2. length (rawpixels (rawpixelsetbuffer (pixel_init s) ! i)) = 6 \<and>
            (\<forall>j < 6. rawpixels (rawpixelsetbuffer (pixel_init s) ! i) ! j =
                        \<lparr> rawValueR = 255, rawValueG = 255, rawValueB = 255 \<rparr>))"
proof -
  from assms have
    "rawpixelsetbuffer (pixel_init s) =
       map (\<lambda>ps. ps\<lparr> rawpixels := replicate PIXEL_COUNT raw_off \<rparr>) (rawpixelsetbuffer s)"
    by (simp add: pixel_init_def setupTimers_def store_allocated_def init_rawpixelsets_all_off)
  with assms show ?thesis
    by (simp add: store_allocated_def RAW_PIXEL_SET_BUFFER_COUNT_def PIXEL_COUNT_def raw_off_def)
qed

theorem pixel_init_all_off_witness:
  "store_allocated boot_state \<and>
   length (rawpixelsetbuffer (pixel_init boot_state)) = 2 \<and>
   length (rawpixels (rawpixelsetbuffer (pixel_init boot_state) ! 1)) = 6 \<and>
   rawpixels (rawpixelsetbuffer (pixel_init boot_state) ! 1) ! 5 =
     \<lparr> rawValueR = 255, rawValueG = 255, rawValueB = 255 \<rparr> \<and>
   rawpixels (rawpixelsetbuffer (pixel_init boot_state) ! 0) ! 0 =
     \<lparr> rawValueR = 255, rawValueG = 255, rawValueB = 255 \<rparr>"
proof -
  have h: "store_allocated boot_state"
    using wf_state_boot by (simp add: wf_state_def wf_store_def)
  from pixel_init_all_off [OF h] h show ?thesis
    by simp
qed

section \<open>Write, swap and display\<close>

lemma painted_state_written:
  "pixel_bufferedSetPixelRaw 1 10 20 30 running_state = Some painted_state"
  by (simp add: pixel_bufferedSetPixelRaw_def painted_state_def PIXEL_COUNT_def)

lemma painted_state_wf: "wf_state painted_state"
  by (rule wf_state_pixel_bufferedSetPixelRaw [OF running_state_wf painted_state_written])

lemma painted_state_delivered: "timer0_overflow_delivered painted_state"
  by (simp add: painted_state_def delivered_setters running_state_delivered)

lemma painted_state_sets:
  "buffered_set painted_state ! 1 = \<lparr> rawValueR = 10, rawValueG = 20, rawValueB = 30 \<rparr>"
  "displayed_set painted_state ! 1 = \<lparr> rawValueR = 255, rawValueG = 255, rawValueB = 255 \<rparr>"
proof -
  have wf: "wf_store running_state" and p: "(1 :: nat) < PIXEL_COUNT"
    using running_state_wf by (simp_all add: wf_state_def PIXEL_COUNT_def)
  from write_rawpixel_frame(2) [OF wf p] running_state_sets(2)
  show "buffered_set painted_state ! 1 = \<lparr> rawValueR = 10, rawValueG = 20, rawValueB = 30 \<rparr>"
    by (simp add: painted_state_def PIXEL_COUNT_def rawpixel_overwrite)
  from write_rawpixel_frame(1) [OF wf p] running_state_sets(1)
  show "displayed_set painted_state ! 1 =
          \<lparr> rawValueR = 255, rawValueG = 255, rawValueB = 255 \<rparr>"
    by (simp add: painted_state_def PIXEL_COUNT_def raw_off_def)
qed

text \<open>
  C1: with the overflow interrupt of Timer0 delivered (timers started by \<open>pixel_enable\<close>,
  interrupts enabled), for every pixel index 0..5 and all raw compare values 0..255,
  \<open>pixel_bufferedSetPixelRaw\<close> followed at once by \<open>pixel_displayBufferedPixels\<close> returns
  and leaves the slot at that index of the displayed set holding exactly the written
  values.
\<close>

theorem raw_write_display_roundtrip:
  assumes "wf_state s" and "timer0_overflow_delivered s" and "unat pixel < PIXEL_COUNT"
  shows "\<exists>s1 s2. pixel_bufferedSetPixelRaw pixel r_pwm g_pwm b_pwm s = Some s1 \<and>
           pixel_displayBufferedPixels s1 = Some s2 \<and>
           displayed_set s2 ! unat pixel =
             \<lparr> rawValueR = r_pwm, rawValueG = g_pwm, rawValueB = b_pwm \<rparr>"
proof -
  let ?v = "\<lparr> rawValueR = r_pwm, rawValueG = g_pwm, rawValueB = b_pwm \<rparr>"
  let ?s1 = "write_rawpixel (bufferedRawPixelSet s) (unat pixel) (\<lambda>rawpixel. ?v) s"
  from assms(1) have wf: "wf_store s" "wf_cursor s"
    by (simp_all add: wf_state_def)
  from write_rawpixel_buffered [OF wf(1) assms(3) refl, of ?v] wf(2)
  have s1: "buffered_set ?s1 ! unat pixel = ?v" "wf_store ?s1" "wf_cursor ?s1"
    by blast+
  from assms(2) have d: "timer0_overflow_delivered ?s1"
    by (simp add: delivered_setters)
  from display_sets [OF s1(2,3) d] obtain s2 where
    "pixel_displayBufferedPixels ?s1 = Some s2" "displayed_set s2 = buffered_set ?s1"
    by blast
  with s1(1) pixel_bufferedSetPixelRaw_result [OF assms(3), of r_pwm g_pwm b_pwm s]
  show ?thesis by simp
qed

theorem raw_write_display_roundtrip_witness:
  "wf_state painted_state \<and> timer0_overflow_delivered painted_state \<and>
   unat (5 :: u8) < PIXEL_COUNT \<and>
   (\<exists>s1 s2. pixel_bufferedSetPixelRaw 5 0 128 254 painted_state = Some s1 \<and>
      pixel_displayBufferedPixels s1 = Some s2 \<and>
      displayed_set s2 ! unat (5 :: u8) = \<lparr> rawValueR = 0, rawValueG = 128, rawValueB = 254 \<rparr>)"
proof -
  have h: "wf_state painted_state" "timer0_overflow_delivered painted_state"
    "unat (5 :: u8) < PIXEL_COUNT"
    using painted_state_wf painted_state_delivered by (simp_all add: PIXEL_COUNT_def)
  from raw_write_display_roundtrip [OF h, of 0 128 254] h show ?thesis
    by blast
qed

text \<open>
  C4: with the overflow interrupt of Timer0 delivered, \<open>pixel_displayBufferedPixels\<close>
  returns, and then the new buffered set equals the new displayed set, slot for slot and
  channel for channel: the set that was displayed has been overwritten with the set that
  was buffered, which is now displayed.
\<close>

theorem display_leaves_buffered_equal_displayed:
  assumes "wf_state s" and "timer0_overflow_delivered s"
  shows "\<exists>s'. pixel_displayBufferedPixels s = Some s' \<and>
           buffered_set s' = displayed_set s' \<and>
           displayed_set s' = buffered_set s \<and>
           bufferedRawPixelSet s' = displayedRawPixelSet s \<and>
           length (displayed_set s') = PIXEL_COUNT \<and>
           (\<forall>i < PIXEL_COUNT.
              rawValueR (buffered_set s' ! i) = rawValueR (displayed_set s' ! i) \<and>
              rawValueG (buffered_set s' ! i) = rawValueG (displayed_set s' ! i) \<and>
              rawValueB (buffered_set s' ! i) = rawValueB (displayed_set s' ! i))"
proof -
  from assms(1) have wf: "wf_store s" "wf_cursor s"
    by (simp_all add: wf_state_def)
  from display_sets [OF wf assms(2)] obtain s' where
    s': "pixel_displayBufferedPixels s = Some s'" "displayed_set s' = buffered_set s"
      "buffered_set s' = buffered_set s" "bufferedRawPixelSet s' = displayedRawPixelSet s"
      "wf_store s'"
    by blast
  from s'(5) have "length (displayed_set s') = PIXEL_COUNT"
    by (rule length_displayed_set)
  with s'(1-4) show ?thesis by simp
qed

theorem display_leaves_buffered_equal_displayed_witness:
  "wf_state painted_state \<and> timer0_overflow_delivered painted_state \<and>
   rawpixels (rawpixelsetbuffer painted_state ! displayedRawPixelSet painted_state) ! 1 =
     \<lparr> rawValueR = 255, rawValueG = 255, rawValueB = 255 \<rparr> \<and>
   (\<exists>s'. pixel_displayBufferedPixels painted_state = Some s' \<and>
      bufferedRawPixelSet s' = displayedRawPixelSet painted_state \<and>
      buffered_set s' = displayed_set s' \<and>
      buffered_set s' ! 1 = \<lparr> rawValueR = 10, rawValueG = 20, rawValueB = 30 \<rparr> \<and>
      rawValueB (buffered_set s' ! 1) = rawValueB (displayed_set s' ! 1))"
proof -
  have h: "wf_state painted_state" "timer0_overflow_delivered painted_state"
    by (rule painted_state_wf, rule painted_state_delivered)
  from display_leaves_buffered_equal_displayed [OF h] obtain s' where
    "pixel_displayBufferedPixels painted_state = Some s'"
    "buffered_set s' = displayed_set s'" "displayed_set s' = buffered_set painted_state"
    "bufferedRawPixelSet s' = displayedRawPixelSet painted_state"
    by blast
  with h painted_state_sets show ?thesis
    by (simp add: displayed_set_def [of painted_state])
qed

text \<open>
  C7: with the overflow interrupt of Timer0 delivered, two consecutive calls of
  \<open>pixel_displayBufferedPixels\<close> with no write in between both return, and the displayed
  set after the second equals the displayed set after the first (which is the set that
  was buffered before the first).
\<close>

theorem display_twice_idempotent:
  assumes "wf_state s" and "timer0_overflow_delivered s"
  shows "\<exists>s1 s2. pixel_displayBufferedPixels s = Some s1 \<and>
           pixel_displayBufferedPixels s1 = Some s2 \<and>
           displayed_set s2 = displayed_set s1 \<and>
           displayed_set s1 = buffered_set s"
proof -
  from assms(1) have wf: "wf_store s" "wf_cursor s"
    by (simp_all add: wf_state_def)
  from display_sets [OF wf assms(2)] obtain s1 where
    s1: "pixel_displayBufferedPixels s = Some s1" "displayed_set s1 = buffered_set s"
      "buffered_set s1 = buffered_set s" "wf_store s1" "wf_cursor s1"
      "timer0_overflow_delivered s1"
    by blast
  from display_sets [OF s1(4-6)] obtain s2 where
    "pixel_displayBufferedPixels s1 = Some s2" "displayed_set s2 = buffered_set s1"
    by blast
  with s1(1-3) show ?thesis by simp
qed

theorem display_twice_idempotent_witness:
  "wf_state painted_state \<and> timer0_overflow_delivered painted_state \<and>
   displayed_set painted_state ! 1 = \<lparr> rawValueR = 255, rawValueG = 255, rawValueB = 255 \<rparr> \<and>
   (\<exists>s1 s2. pixel_displayBufferedPixels painted_state = Some s1 \<and>
      pixel_displayBufferedPixels s1 = Some s2 \<and>
      displayed_set s2 = displayed_set s1 \<and>
      displayed_set s1 ! 1 = \<lparr> rawValueR = 10, rawValueG = 20, rawValueB = 30 \<rparr> \<and>
      displayed_set s2 ! 1 = \<lparr> rawValueR = 10, rawValueG = 20, rawValueB = 30 \<rparr>)"
proof -
  have h: "wf_state painted_state" "timer0_overflow_delivered painted_state"
    by (rule painted_state_wf, rule painted_state_delivered)
  from display_twice_idempotent [OF h] obtain s1 s2 where
    "pixel_displayBufferedPixels painted_state = Some s1"
    "pixel_displayBufferedPixels s1 = Some s2"
    "displayed_set s2 = displayed_set s1" "displayed_set s1 = buffered_set painted_state"
    by blast
  with h painted_state_sets show ?thesis
    by simp
qed

text \<open>
  C6: with the overflow interrupt of Timer0 delivered, from a store whose two sets are all
  off, \<open>pixel_bufferedSetPixel(0, {r:31, g:0, b:0})\<close> and then
  \<open>pixel_displayBufferedPixels()\<close> return and leave displayed slot 0 equal to
  {1, 255, 255} and displayed slots 1 to 5 at {255, 255, 255}.
\<close>

theorem max_red_end_to_end:
  assumes "wf_state s" and "timer0_overflow_delivered s"
    and "displayed_set s = replicate PIXEL_COUNT raw_off"
    and "buffered_set s = replicate PIXEL_COUNT raw_off"
  shows "\<exists>s1 s2. pixel_bufferedSetPixel 0 \<lparr> r = 31, g = 0, b = 0 \<rparr> s = Some s1 \<and>
           pixel_displayBufferedPixels s1 = Some s2 \<and>
           displayed_set s2 =
             [\<lparr> rawValueR = 1, rawValueG = 255, rawValueB = 255 \<rparr>,
              \<lparr> rawValueR = 255, rawValueG = 255, rawValueB = 255 \<rparr>,
              \<lparr> rawValueR = 255, rawValueG = 255, rawValueB = 255 \<rparr>,
              \<lparr> rawValueR = 255, rawValueG = 255, rawValueB = 255 \<rparr>,
              \<lparr> rawValueR = 255, rawValueG = 255, rawValueB = 255 \<rparr>,
              \<lparr> rawValueR = 255, rawValueG = 255, rawValueB = 255 \<rparr>]"
proof -
  let ?c = "\<lparr> r = 31, g = 0, b = 0 \<rparr>"
  let ?v = "\<lparr> rawValueR = gamma8R ! unat (r ?c), rawValueG = gamma8G ! unat (g ?c),
              rawValueB = gamma8B ! unat (b ?c) \<rparr>"
  let ?s1 = "write_rawpixel (bufferedRawPixelSet s) (unat (0 :: u8)) (\<lambda>rawpixel. ?v) s"
  from assms(1) have wf: "wf_store s" "wf_cursor s"
    by (simp_all add: wf_state_def)
  have p: "unat (0 :: u8) < PIXEL_COUNT"
    by (simp add: PIXEL_COUNT_def)
  have c: "unat (r ?c) < 32" "unat (g ?c) < 32" "unat (b ?c) < 32"
    by simp_all
  have set: "pixel_bufferedSetPixel 0 ?c s = Some ?s1"
    by (rule pixel_bufferedSetPixel_result [OF p c])
  from write_rawpixel_buffered [OF wf(1) p refl, of ?v] wf(2)
  have s1: "buffered_set ?s1 = (buffered_set s)[unat (0 :: u8) := ?v]" "wf_store ?s1" "wf_cursor ?s1"
    by blast+
  from assms(2) have d: "timer0_overflow_delivered ?s1"
    by (simp add: delivered_setters)
  from display_sets [OF s1(2,3) d] obtain s2 where
    s2: "pixel_displayBufferedPixels ?s1 = Some s2" "displayed_set s2 = buffered_set ?s1"
    by blast
  have v: "?v = \<lparr> rawValueR = 1, rawValueG = 255, rawValueB = 255 \<rparr>"
    by (simp add: gamma8R_def gamma8G_def gamma8B_def)
  have "(replicate PIXEL_COUNT raw_off)[unat (0 :: u8) := ?v] =
          [\<lparr> rawValueR = 1, rawValueG = 255, rawValueB = 255 \<rparr>,
           \<lparr> rawValueR = 255, rawValueG = 255, rawValueB = 255 \<rparr>,
           \<lparr> rawValueR = 255, rawValueG = 255, rawValueB = 255 \<rparr>,
           \<lparr> rawValueR = 255, rawValueG = 255, rawValueB = 255 \<rparr>,
           \<lparr> rawValueR = 255, rawValueG = 255, rawValueB = 255 \<rparr>,
           \<lparr> rawValueR = 255, rawValueG = 255, rawValueB = 255 \<rparr>]"
    unfolding v by (simp add: PIXEL_COUNT_def raw_off_def eval_nat_numeral)
  with set s2 s1(1) assms(4) show ?thesis
    by simp
qed

theorem max_red_end_to_end_witness:
  "wf_state running_state \<and> timer0_overflow_delivered running_state \<and>
   displayed_set running_state = replicate PIXEL_COUNT raw_off \<and>
   buffered_set running_state = replicate PIXEL_COUNT raw_off \<and>
   (\<exists>s1 s2. pixel_bufferedSetPixel 0 \<lparr> r = 31, g = 0, b = 0 \<rparr> running_state = Some s1 \<and>
      pixel_displayBufferedPixels s1 = Some s2 \<and>
      displayed_set s2 =
        [\<lparr> rawValueR = 1, rawValueG = 255, rawValueB = 255 \<rparr>,
         \<lparr> rawValueR = 255, rawValueG = 255, rawValueB = 255 \<rparr>,
         \<lparr> rawValueR = 255, rawValueG = 255, rawValueB = 255 \<rparr>,
         \<lparr> rawValueR = 255, rawValueG = 255, rawValueB = 255 \<rparr>,
         \<lparr> rawValueR = 255, rawValueG = 255, rawValueB = 255 \<rparr>,
         \<lparr> rawValueR = 255, rawValueG = 255, rawValueB = 255 \<rparr>])"
proof -
  have h: "wf_state running_state" "timer0_overflow_delivered running_state"
    "displayed_set running_state = replicate PIXEL_COUNT raw_off"
    "buffered_set running_state = replicate PIXEL_COUNT raw_off"
    using running_state_wf running_state_delivered running_state_sets by simp_all
  from max_red_end_to_end [OF h] h show ?thesis
    by blast
qed

section \<open>The scan and the frame boundary\<close>

lemma cursor_of_frame_pos:
  assumes "wf_cursor s" and "frame_pos s = n"
  shows "unat (currentPixelIndex s) = n div 5 \<and> unat (phase s) = n mod 5"
  using assms by (auto simp: wf_cursor_def frame_pos_def)

text \<open>
  C5: from the cursor (pixel 0, phase 0), 30 calls of the handler bring the cursor back
  to (pixel 0, phase 0), and the handler tests the pending-swap flag exactly once in
  them, in the 30th call. After \<open>n < 30\<close> calls the cursor is at pixel \<open>n div 5\<close>, phase
  \<open>n mod 5\<close>, so the pixel index stays in [0,6) and the phase in {0,..,4}.
\<close>

theorem cursor_full_frame:
  assumes "currentPixelIndex s = 0" and "phase s = 0"
  shows "(\<exists>s'. isr_steps 30 s = Some s' \<and> currentPixelIndex s' = 0 \<and> phase s' = 0 \<and>
            swapChecks s' = swapChecks s + 1) \<and>
         (\<forall>n < 30. \<exists>t. isr_steps n s = Some t \<and>
            unat (currentPixelIndex t) = n div 5 \<and> unat (phase t) = n mod 5 \<and>
            unat (currentPixelIndex t) < PIXEL_COUNT \<and> unat (phase t) < 5 \<and>
            swapChecks t = swapChecks s)"
proof (intro conjI allI impI)
  from assms have wf: "wf_cursor s" and pos: "frame_pos s = 0"
    by (simp_all add: wf_cursor_def frame_pos_def PIXEL_COUNT_def)
  from isr_steps_to_boundary [OF wf] pos obtain s1 where
    s1: "wf_cursor s1" "frame_pos s1 = 29" "swapChecks s1 = swapChecks s"
      "isr_steps 30 s = pixel_isr s1"
    by auto
  from pixel_isr_wrap [OF s1(1,2)] s1(3,4)
  show "\<exists>s'. isr_steps 30 s = Some s' \<and> currentPixelIndex s' = 0 \<and> phase s' = 0 \<and>
          swapChecks s' = swapChecks s + 1"
    by (cases "pendingRawPixelBufferSwap s1 = 0") simp_all
  fix n :: nat
  assume "n < 30"
  with pos have "frame_pos s + n \<le> 29" by simp
  from isr_steps_mid [OF wf this] pos obtain t where
    t: "isr_steps n s = Some t" "swapChecks t = swapChecks s" "frame_pos t = n" "wf_cursor t"
    by auto
  from cursor_of_frame_pos [OF t(4,3)] t(1,2,4)
  show "\<exists>t. isr_steps n s = Some t \<and>
          unat (currentPixelIndex t) = n div 5 \<and> unat (phase t) = n mod 5 \<and>
          unat (currentPixelIndex t) < PIXEL_COUNT \<and> unat (phase t) < 5 \<and>
          swapChecks t = swapChecks s"
    by (auto simp: wf_cursor_def)
qed

theorem cursor_full_frame_witness:
  "currentPixelIndex boot_state = 0 \<and> phase boot_state = 0 \<and>
   (\<exists>s'. isr_steps 30 boot_state = Some s' \<and> currentPixelIndex s' = 0 \<and> phase s' = 0 \<and>
      swapChecks s' = 1) \<and>
   (\<exists>t. isr_steps 17 boot_state = Some t \<and> currentPixelIndex t = 3 \<and> phase t = 2 \<and>
      swapChecks t = 0)"
proof -
  have h: "currentPixelIndex boot_state = 0" "phase boot_state = 0"
    by (simp_all add: boot_state_def)
  have c: "swapChecks boot_state = 0"
    by (simp add: boot_state_def)
  from cursor_full_frame [OF h, THEN conjunct1] c
  have full: "\<exists>s'. isr_steps 30 boot_state = Some s' \<and> currentPixelIndex s' = 0 \<and>
                phase s' = 0 \<and> swapChecks s' = 1"
    by simp
  from cursor_full_frame [OF h, THEN conjunct2, rule_format, of 17] c
  have "\<exists>t. isr_steps 17 boot_state = Some t \<and> currentPixelIndex t = 3 \<and> phase t = 2 \<and>
          swapChecks t = 0"
    by (auto simp: word_unat_eq_iff)
  with full h show ?thesis
    by simp
qed

text \<open>
  C2: the handler exchanges the two pointers only in the call that enters at phase 4 of
  the last pixel, with the flag raised; it never writes into a set. So when a swap is
  requested at any cursor position, the displayed set is unchanged after every call up
  to that one, and the call at the wraparound makes the buffered set the displayed one
  and clears the flag.
\<close>

theorem swap_only_at_frame_boundary:
  assumes "wf_cursor s"
  shows "(\<exists>s'. pixel_isr s = Some s' \<and> rawpixelsetbuffer s' = rawpixelsetbuffer s \<and>
            (if phase s = 4 \<and> currentPixelIndex s = 5 \<and> pendingRawPixelBufferSwap s \<noteq> 0
             then displayedRawPixelSet s' = bufferedRawPixelSet s \<and>
                  bufferedRawPixelSet s' = displayedRawPixelSet s \<and>
                  pendingRawPixelBufferSwap s' = 0 \<and>
                  currentPixelIndex s' = 0 \<and> phase s' = 0
             else displayedRawPixelSet s' = displayedRawPixelSet s \<and>
                  bufferedRawPixelSet s' = bufferedRawPixelSet s \<and>
                  pendingRawPixelBufferSwap s' = pendingRawPixelBufferSwap s)) \<and>
         (\<forall>n \<le> 29 - frame_pos s.
            \<exists>t. isr_steps n (s\<lparr> pendingRawPixelBufferSwap := 1 \<rparr>) = Some t \<and>
                displayed_set t = displayed_set s \<and>
                displayedRawPixelSet t = displayedRawPixelSet s \<and>
                pendingRawPixelBufferSwap t = 1) \<and>
         (\<exists>t. isr_steps (30 - frame_pos s) (s\<lparr> pendingRawPixelBufferSwap := 1 \<rparr>) = Some t \<and>
             displayed_set t = buffered_set s \<and>
             displayedRawPixelSet t = bufferedRawPixelSet s \<and>
             pendingRawPixelBufferSwap t = 0 \<and>
             currentPixelIndex t = 0 \<and> phase t = 0)"
proof (intro conjI allI impI)
  show "\<exists>s'. pixel_isr s = Some s' \<and> rawpixelsetbuffer s' = rawpixelsetbuffer s \<and>
            (if phase s = 4 \<and> currentPixelIndex s = 5 \<and> pendingRawPixelBufferSwap s \<noteq> 0
             then displayedRawPixelSet s' = bufferedRawPixelSet s \<and>
                  bufferedRawPixelSet s' = displayedRawPixelSet s \<and>
                  pendingRawPixelBufferSwap s' = 0 \<and>
                  currentPixelIndex s' = 0 \<and> phase s' = 0
             else displayedRawPixelSet s' = displayedRawPixelSet s \<and>
                  bufferedRawPixelSet s' = bufferedRawPixelSet s \<and>
                  pendingRawPixelBufferSwap s' = pendingRawPixelBufferSwap s)"
  proof (cases "frame_pos s = 29")
    case True
    with frame_pos_last [OF assms] pixel_isr_wrap [OF assms True] show ?thesis
      by simp
  next
    case False
    with frame_pos_last [OF assms] pixel_isr_mid [OF assms False] show ?thesis
      by auto
  qed
next
  let ?s0 = "s\<lparr> pendingRawPixelBufferSwap := 1 \<rparr>"
  have wf: "wf_cursor ?s0" and pos: "frame_pos ?s0 = frame_pos s"
    using assms by (simp_all add: wf_cursor_def frame_pos_def)
  fix n :: nat
  assume "n \<le> 29 - frame_pos s"
  with frame_pos_bound [OF assms] pos have "frame_pos ?s0 + n \<le> 29"
    by simp
  from isr_steps_mid [OF wf this]
  show "\<exists>t. isr_steps n ?s0 = Some t \<and> displayed_set t = displayed_set s \<and>
          displayedRawPixelSet t = displayedRawPixelSet s \<and> pendingRawPixelBufferSwap t = 1"
    by (auto simp: displayed_set_def)
next
  let ?s0 = "s\<lparr> pendingRawPixelBufferSwap := 1 \<rparr>"
  have wf: "wf_cursor ?s0" and pos: "frame_pos ?s0 = frame_pos s"
    and req: "pendingRawPixelBufferSwap ?s0 \<noteq> 0"
    using assms by (simp_all add: wf_cursor_def frame_pos_def)
  from isr_steps_frame_swap [OF wf req]
  show "\<exists>t. isr_steps (30 - frame_pos s) ?s0 = Some t \<and>
          displayed_set t = buffered_set s \<and>
          displayedRawPixelSet t = bufferedRawPixelSet s \<and>
          pendingRawPixelBufferSwap t = 0 \<and> currentPixelIndex t = 0 \<and> phase t = 0"
    unfolding pos by (auto simp: displayed_set_def buffered_set_def)
qed

theorem swap_only_at_frame_boundary_witness:
  "wf_cursor mid_scan_state \<and>
   (\<exists>s'. pixel_isr mid_scan_state = Some s' \<and>
      displayedRawPixelSet s' = displayedRawPixelSet mid_scan_state) \<and>
   (\<exists>t. isr_steps 16 (mid_scan_state\<lparr> pendingRawPixelBufferSwap := 1 \<rparr>) = Some t \<and>
      displayed_set t = displayed_set mid_scan_state \<and> pendingRawPixelBufferSwap t = 1) \<and>
   (\<exists>t. isr_steps 17 (mid_scan_state\<lparr> pendingRawPixelBufferSwap := 1 \<rparr>) = Some t \<and>
      displayed_set t = buffered_set mid_scan_state \<and> pendingRawPixelBufferSwap t = 0)"
proof -
  have h: "wf_cursor mid_scan_state"
    by (simp add: mid_scan_state_def wf_cursor_def PIXEL_COUNT_def)
  have pos: "frame_pos mid_scan_state = 13" "phase mid_scan_state = 3"
    by (simp_all add: mid_scan_state_def frame_pos_def)
  from swap_only_at_frame_boundary [OF h] show ?thesis
    unfolding pos using h by (elim conjE exE allE [of _ 16]) auto
qed

end
